theory Spec2Isabelle
  imports Complex_Main "HOL-Library.Char_ord" "HOL-Library.List_Lexorder" "HOL-Library.Multiset"
begin

section \<open>LearnPulse: generation orchestration and spaced repetition\<close>

text \<open>
  A shallow embedding of the LearnPulse extension's core: the SM-2 engine
  (\<^verbatim>\<open>lib/srs-engine.js\<close>), the content chunker (\<^verbatim>\<open>lib/content-chunker.js\<close>), the
  response normalisation of the Gemini and Ollama connectors, and the fallback orchestrator
  and persistence step of the background service worker.

  Conventions. A JavaScript number is a \<^typ>\<open>rat\<close>: every finite double is a rational, and
  the arithmetic of the model is exact (no rounding to 53 bits, no \<^verbatim>\<open>NaN\<close>, no infinities).
  A property that may be absent (\<^verbatim>\<open>undefined\<close> or \<^verbatim>\<open>null\<close>) is an \<^typ>\<open>'a option\<close>.
  A string is a \<^typ>\<open>string\<close> of 8-bit characters. Whatever the host provides (the clock,
  the network, \<^verbatim>\<open>JSON.parse\<close>) is a parameter of the function that uses it.
\<close>

subsection \<open>JavaScript idioms\<close>

type_synonym number = rat

text \<open>\<^verbatim>\<open>v || d\<close> on an optional number: \<^verbatim>\<open>undefined\<close> and \<^verbatim>\<open>0\<close> are falsy.\<close>

definition num_or :: "number option \<Rightarrow> number \<Rightarrow> number" where
  "num_or v d = (case v of None \<Rightarrow> d | Some x \<Rightarrow> if x = 0 then d else x)"

text \<open>\<^verbatim>\<open>v || d\<close> on an optional string: \<^verbatim>\<open>undefined\<close> and the empty string are falsy.\<close>

definition str_or :: "string option \<Rightarrow> string \<Rightarrow> string" where
  "str_or v d = (case v of None \<Rightarrow> d | Some s \<Rightarrow> if s = [] then d else s)"

text \<open>\<^verbatim>\<open>v ?? d\<close>: only an absent value takes the default.\<close>

definition nullish_or :: "'a option \<Rightarrow> 'a \<Rightarrow> 'a" where
  "nullish_or v d = (case v of None \<Rightarrow> d | Some x \<Rightarrow> x)"

text \<open>\<^verbatim>\<open>Math.round\<close>: the nearest integer, a half rounded towards plus infinity.\<close>

definition Math_round :: "number \<Rightarrow> number" where
  "Math_round x = of_int \<lfloor>x + 1 / 2\<rfloor>"

subsection \<open>Flashcards and the SM-2 engine\<close>

text \<open>
  A question and answer pair, as a backend produces it; the scheduling fields a candidate
  card may carry; and the stored flashcard.
\<close>

record qa =
  question :: string
  answer :: string

record candidate = qa +
  interval :: "number option"
  easeFactor :: "number option"
  repetitions :: "number option"

record flashcard = candidate +
  cardId :: string
  sourceLessonId :: "string option"
  dueDate :: "string option"
  lastReviewedAt :: "string option"
  lastGrade :: "number option"

text \<open>
  The clock of one review: the ISO string of now plus a number of days
  (\<^verbatim>\<open>due.setDate(due.getDate() + interval); due.toISOString()\<close>) and the ISO string of now.
\<close>

record review_clock =
  dueIso :: "number \<Rightarrow> string"
  reviewedIso :: string

definition clampGrade :: "number \<Rightarrow> number" where
  "clampGrade grade = max 0 (min 5 grade)"

definition applySm2Review :: "review_clock \<Rightarrow> flashcard \<Rightarrow> number \<Rightarrow> flashcard" where
  "applySm2Review clk c grade =
     (let clampedGrade = clampGrade grade;
          ease0 = num_or (easeFactor c) (5 / 2);
          interval0 = num_or (interval c) 1;
          repetitions0 = num_or (repetitions c) 0;
          repetitions1 = (if clampedGrade < 3 then 0 else repetitions0 + 1);
          interval1 =
            (if clampedGrade < 3 then 1
             else if repetitions0 = 0 then 1
             else if repetitions0 = 1 then 6
             else Math_round (interval0 * ease0));
          ease1 =
            (if clampedGrade < 3 then ease0
             else max (13 / 10)
                    (ease0 + (1 / 10 - (5 - clampedGrade) * (8 / 100 + (5 - clampedGrade) * (2 / 100)))))
      in c\<lparr>easeFactor := Some ease1, interval := Some interval1,
              repetitions := Some repetitions1, dueDate := Some (dueIso clk interval1),
              lastReviewedAt := Some (reviewedIso clk), lastGrade := Some clampedGrade\<rparr>)"

text \<open>The invariant of the data model on the ease factor: absent, or at least 1.3.\<close>

definition ease_ok :: "flashcard \<Rightarrow> bool" where
  "ease_ok c = (case easeFactor c of None \<Rightarrow> True | Some e \<Rightarrow> 13 / 10 \<le> e)"

text \<open>The aggregate statistics, as stored (any field may be missing from old data).\<close>

record stats =
  streak :: "number option"
  lastLessonDate :: "string option"
  totalLessons :: "number option"
  totalFlashcardsReviewed :: "number option"
  flashcardsGeneratedToday :: "number option"

text \<open>\<^verbatim>\<open>flashcards.findIndex((card) => card.id === cardId)\<close>, \<^term>\<open>None\<close> for -1.\<close>

fun findIndex :: "('a \<Rightarrow> bool) \<Rightarrow> 'a list \<Rightarrow> nat option" where
  "findIndex P [] = None"
| "findIndex P (x # xs) =
     (if P x then Some 0 else (case findIndex P xs of None \<Rightarrow> None | Some i \<Rightarrow> Some (Suc i)))"

text \<open>
  The grading operation of the service worker, on the card list and the statistics it read
  from storage: \<^term>\<open>None\<close> when the identifier is not found (nothing is written), the
  two values written back otherwise.
\<close>

definition gradeFlashcard ::
  "review_clock \<Rightarrow> flashcard list \<Rightarrow> stats \<Rightarrow> string \<Rightarrow> number \<Rightarrow> (flashcard list \<times> stats) option" where
  "gradeFlashcard clk cards st cid grade =
     (case findIndex (\<lambda>c. cardId c = cid) cards of
        None \<Rightarrow> None
      | Some index \<Rightarrow>
          Some (cards[index := applySm2Review clk (cards ! index) grade],
                st\<lparr>totalFlashcardsReviewed := Some (num_or (totalFlashcardsReviewed st) 0 + 1)\<rparr>))"

text \<open>Sample values: the two scenarios of the specification, and a fixed clock.\<close>

definition sample_clock :: review_clock where
  "sample_clock = \<lparr>dueIso = (\<lambda>days. ''2024-05-16T09:00:00.000Z''), reviewedIso = ''2024-05-01T09:00:00.000Z''\<rparr>"

definition sample_card :: "number \<Rightarrow> number \<Rightarrow> number \<Rightarrow> flashcard" where
  "sample_card i e r =
     \<lparr>question = ''What is spaced repetition?'', answer = ''Reviewing at growing intervals.'',
      interval = Some i, easeFactor = Some e, repetitions = Some r,
      cardId = ''card-2024-04-30-0'', sourceLessonId = Some ''lesson-2024-04-30'',
      dueDate = Some ''2024-05-01T08:00:00.000Z'', lastReviewedAt = None, lastGrade = None\<rparr>"

subsection \<open>The SM-2 postcondition\<close>



subsection \<open>The ease factor never falls below 1.3\<close>

text \<open>
  C2. For every flashcard whose ease factor is at least 1.3, or absent (so that the default
  2.5 applies), and every grade in [0,5], the card returned by \<^const>\<open>applySm2Review\<close> has an
  ease factor of at least 1.3; and the grading operation, which reviews one card of the
  stored list and leaves the others alone, keeps the invariant on the whole list.
\<close>

theorem applySm2Review_easeFactor_floor:
  assumes "ease_ok c" and "0 \<le> grade" and "grade \<le> 5"
  shows "(\<exists>e. easeFactor (applySm2Review clk c grade) = Some e \<and> 13 / 10 \<le> e)
    \<and> ease_ok (applySm2Review clk c grade)
    \<and> (\<forall>cards st cid cards' st'.
          list_all ease_ok cards \<and> gradeFlashcard clk cards st cid grade = Some (cards', st')
          \<longrightarrow> list_all ease_ok cards')"
proof -
  have floor_any: "ease_ok (applySm2Review clk x grade)
      \<and> (\<exists>e. easeFactor (applySm2Review clk x grade) = Some e \<and> 13 / 10 \<le> e)"
    if "ease_ok x" for x :: flashcard
  proof -
    define adjusted where "adjusted = num_or (easeFactor x) (5 / 2)
      + (1 / 10 - (5 - clampGrade grade) * (8 / 100 + (5 - clampGrade grade) * (2 / 100)))"
    have prior: "13 / 10 \<le> num_or (easeFactor x) (5 / 2)"
      using that by (cases "easeFactor x") (auto simp: ease_ok_def num_or_def)
    have after: "easeFactor (applySm2Review clk x grade) =
        Some (if clampGrade grade < 3 then num_or (easeFactor x) (5 / 2) else max (13 / 10) adjusted)"
      by (simp add: applySm2Review_def Let_def adjusted_def)
    have "13 / 10 \<le> (if clampGrade grade < 3 then num_or (easeFactor x) (5 / 2) else max (13 / 10) adjusted)"
      using prior by (simp only: max.cobounded1 if_split) blast
    with after show ?thesis
      by (simp only: ease_ok_def option.case) blast
  qed
  have listed: "list_all ease_ok cards'"
    if all: "list_all ease_ok cards"
      and graded: "gradeFlashcard clk cards st cid grade = Some (cards', st')"
    for cards st cid cards' st'
  proof -
    from graded obtain index where
      found: "findIndex (\<lambda>c. cardId c = cid) cards = Some index"
      and cards': "cards' = cards[index := applySm2Review clk (cards ! index) grade]"
      by (auto simp: gradeFlashcard_def split: option.splits)
    show ?thesis
    proof (cases "index < length cards")
      case True
      with all have "ease_ok (cards ! index)" by (simp add: list_all_length)
      then have "ease_ok (applySm2Review clk (cards ! index) grade)"
        using floor_any by blast
      with all show ?thesis
        unfolding cards' list_all_iff by (auto dest: set_update_subset_insert [THEN subsetD])
    next
      case False
      then have "cards[index := applySm2Review clk (cards ! index) grade] = cards"
        by (simp add: list_update_beyond)
      with all show ?thesis by (simp add: cards')
    qed
  qed
  from floor_any [OF assms(1)] listed show ?thesis by blast
qed

theorem applySm2Review_easeFactor_floor_witness:
  "ease_ok (sample_card 6 (13 / 10) 4) \<and> (0::rat) \<le> 3 \<and> (3::rat) \<le> 5
   \<and> easeFactor (applySm2Review sample_clock (sample_card 6 (13 / 10) 4) 3) = Some (13 / 10)
   \<and> ease_ok (applySm2Review sample_clock (sample_card 6 (13 / 10) 4) 3)
   \<and> gradeFlashcard sample_clock [sample_card 6 (13 / 10) 4] \<lparr>streak = None, lastLessonDate = None,
         totalLessons = None, totalFlashcardsReviewed = None, flashcardsGeneratedToday = None\<rparr>
         ''card-2024-04-30-0'' 3
       = Some ([applySm2Review sample_clock (sample_card 6 (13 / 10) 4) 3],
           \<lparr>streak = None, lastLessonDate = None, totalLessons = None,
            totalFlashcardsReviewed = Some 1, flashcardsGeneratedToday = None\<rparr>)
   \<and> list_all ease_ok [applySm2Review sample_clock (sample_card 6 (13 / 10) 4) 3]"
proof -
  have ok: "ease_ok (sample_card 6 (13 / 10) 4)"
    by (simp add: ease_ok_def sample_card_def)
  have range: "(0::rat) \<le> 3" "(3::rat) \<le> 5" by simp_all
  have ease: "easeFactor (applySm2Review sample_clock (sample_card 6 (13 / 10) 4) 3) = Some (13 / 10)"
    by (simp add: applySm2Review_def Let_def clampGrade_def num_or_def sample_card_def)
  have graded: "gradeFlashcard sample_clock [sample_card 6 (13 / 10) 4] \<lparr>streak = None, lastLessonDate = None,
         totalLessons = None, totalFlashcardsReviewed = None, flashcardsGeneratedToday = None\<rparr>
         ''card-2024-04-30-0'' 3
       = Some ([applySm2Review sample_clock (sample_card 6 (13 / 10) 4) 3],
           \<lparr>streak = None, lastLessonDate = None, totalLessons = None,
            totalFlashcardsReviewed = Some 1, flashcardsGeneratedToday = None\<rparr>)"
    by (simp add: gradeFlashcard_def num_or_def sample_card_def)
  from applySm2Review_easeFactor_floor [OF ok range, of sample_clock] ok range ease graded
  show ?thesis by simp
qed

section \<open>The content chunker\<close>

subsection \<open>Strings\<close>

text \<open>
  The characters \<^verbatim>\<open>\s\<close> matches and \<^verbatim>\<open>trim\<close> strips, among the 8-bit characters: tab,
  line feed, vertical tab, form feed, carriage return, space and the non-breaking space.
\<close>

definition isSpace :: "char \<Rightarrow> bool" where
  "isSpace ch = (of_char ch \<in> {9, 10, 11, 12, 13, 32, 160 :: nat})"

definition trim :: "string \<Rightarrow> string" where
  "trim s = rev (dropWhile isSpace (rev (dropWhile isSpace s)))"

text \<open>\<^verbatim>\<open>replace(/\s+/g, ' ')\<close>: every maximal run of white space becomes one space.\<close>

fun collapseSpaces :: "string \<Rightarrow> string" where
  "collapseSpaces [] = []"
| "collapseSpaces [ch] = (if isSpace ch then '' '' else [ch])"
| "collapseSpaces (ch # nxt # rest) =
     (if isSpace ch then (if isSpace nxt then collapseSpaces (nxt # rest) else CHR '' '' # collapseSpaces (nxt # rest))
      else ch # collapseSpaces (nxt # rest))"

text \<open>\<^verbatim>\<open>replace(/\u00a0/g, ' ')\<close>: every non-breaking space becomes a space.\<close>

definition replaceNbsp :: "string \<Rightarrow> string" where
  "replaceNbsp s = map (\<lambda>ch. if of_char ch = (160::nat) then CHR '' '' else ch) s"

definition sanitiseText :: "string \<Rightarrow> string" where
  "sanitiseText t = trim (replaceNbsp (collapseSpaces t))"

text \<open>The decimal digits of a number, as a template literal prints an index or a length.\<close>

definition digitChar :: "nat \<Rightarrow> char" where
  "digitChar n = ''0123456789'' ! n"

fun decimal :: "nat \<Rightarrow> string" where
  "decimal n = (if n < 10 then [digitChar n] else decimal (n div 10) @ [digitChar (n mod 10)])"

subsection \<open>Sources and chunks\<close>

datatype content = TextContent string | BufferContent string | OtherContent

record source =
  sourceType :: string
  sourceId :: "string option"
  sourceUrl :: "string option"
  label :: "string option"
  sourceHeading :: "string option"
  sourceValue :: "string option"
  sourceText :: "string option"
  sourceContent :: "content option"

text \<open>
  The fields of a source are \<^verbatim>\<open>type\<close>, \<^verbatim>\<open>id\<close>, \<^verbatim>\<open>url\<close>, \<^verbatim>\<open>label\<close>, \<^verbatim>\<open>title\<close>,
  \<^verbatim>\<open>value\<close>, \<^verbatim>\<open>text\<close> and \<^verbatim>\<open>content\<close>; a file's content is a string (base64) or
  an \<^verbatim>\<open>ArrayBuffer\<close>.
\<close>

record chunk =
  chunkId :: string
  chunkText :: string
  sourceTitle :: string
  reference :: string
  url :: "string option"

text \<open>
  What the chunker asks of its host: \<^verbatim>\<open>fetch\<close> (\<^term>\<open>None\<close> when it rejects, the
  \<^verbatim>\<open>ok\<close> flag and the body otherwise), \<^verbatim>\<open>atob\<close> (\<^term>\<open>None\<close> when it throws) and
  \<^verbatim>\<open>TextDecoder('utf-8').decode\<close>.
\<close>

record chunk_host =
  fetch :: "string \<Rightarrow> (bool \<times> string) option"
  atob :: "string \<Rightarrow> string option"
  decodeUtf8 :: "string \<Rightarrow> string"

definition DEFAULT_CHUNK_SIZE :: nat where
  "DEFAULT_CHUNK_SIZE = 900"

subsection \<open>Stripping markup\<close>

definition lowerAscii :: "char \<Rightarrow> char" where
  "lowerAscii ch = (let n = (of_char ch :: nat) in if 65 \<le> n \<and> n \<le> 90 then char_of (n + 32) else ch)"

text \<open>Whether the text starts with the (lower-case) word, ignoring the case of ASCII letters.\<close>

definition startsWithCI :: "string \<Rightarrow> string \<Rightarrow> bool" where
  "startsWithCI word s = (take (length word) (map lowerAscii s) = word)"

text \<open>The text after the first \<^verbatim>\<open>>\<close>, if there is one.\<close>

fun afterGt :: "string \<Rightarrow> string option" where
  "afterGt [] = None"
| "afterGt (ch # rest) = (if ch = CHR ''>'' then Some rest else afterGt rest)"

text \<open>The text after the first occurrence of the word, if there is one.\<close>

fun afterWordCI :: "string \<Rightarrow> string \<Rightarrow> string option" where
  "afterWordCI word [] = (if word = [] then Some [] else None)"
| "afterWordCI word (ch # rest) =
     (if startsWithCI word (ch # rest) then Some (drop (length word) (ch # rest))
      else afterWordCI word rest)"

text \<open>
  A match of \<^verbatim>\<open><script[^>]*>[\s\S]*?<\/script>\<close> (or of the same with \<^verbatim>\<open>style\<close>) at the
  head of the text: what follows the match.
\<close>

definition matchBlock :: "string \<Rightarrow> string \<Rightarrow> string option" where
  "matchBlock name s =
     (if startsWithCI (CHR ''<'' # name) s
      then (case afterGt (drop (Suc (length name)) s) of
              None \<Rightarrow> None
            | Some inner \<Rightarrow> afterWordCI (''</'' @ name @ ''>'') inner)
      else None)"

text \<open>
  Removing every match, leftmost first. The number of characters still to skip is carried
  along, so that the recursion is on the text.
\<close>

fun removeBlocksFrom :: "string \<Rightarrow> nat \<Rightarrow> string \<Rightarrow> string" where
  "removeBlocksFrom name skip [] = []"
| "removeBlocksFrom name skip (ch # rest) =
     (if 0 < skip then removeBlocksFrom name (skip - 1) rest
      else (case matchBlock name (ch # rest) of
              Some after \<Rightarrow> removeBlocksFrom name (length rest - length after) rest
            | None \<Rightarrow> ch # removeBlocksFrom name 0 rest))"

definition removeBlocks :: "string \<Rightarrow> string \<Rightarrow> string" where
  "removeBlocks name s = removeBlocksFrom name 0 s"

text \<open>
  A match of \<^verbatim>\<open><[^>]+>\<close> at the head of the text: what follows the match.
\<close>

definition matchTag :: "string \<Rightarrow> string option" where
  "matchTag s =
     (case s of
        [] \<Rightarrow> None
      | ch # rest \<Rightarrow>
          (if ch = CHR ''<'' \<and> takeWhile (\<lambda>x. x \<noteq> CHR ''>'') rest \<noteq> [] then afterGt rest else None))"

fun replaceTagsFrom :: "nat \<Rightarrow> string \<Rightarrow> string" where
  "replaceTagsFrom skip [] = []"
| "replaceTagsFrom skip (ch # rest) =
     (if 0 < skip then replaceTagsFrom (skip - 1) rest
      else (case matchTag (ch # rest) of
              Some after \<Rightarrow> CHR '' '' # replaceTagsFrom (length rest - length after) rest
            | None \<Rightarrow> ch # replaceTagsFrom 0 rest))"

definition stripHtml :: "string \<Rightarrow> string" where
  "stripHtml html = replaceTagsFrom 0 (removeBlocks ''style'' (removeBlocks ''script'' html))"

subsection \<open>Resolving, splitting and attributing\<close>

definition resolveSourceText :: "chunk_host \<Rightarrow> source \<Rightarrow> string" where
  "resolveSourceText h src =
     (if sourceType src = ''text'' then str_or (sourceValue src) (str_or (sourceText src) [])
      else if sourceType src = ''url'' \<and> str_or (sourceUrl src) [] \<noteq> [] then
        (case fetch h (str_or (sourceUrl src) []) of
           None \<Rightarrow> []
         | Some (ok, html) \<Rightarrow> if ok then stripHtml html else [])
      else if sourceType src = ''file'' then
        (case sourceContent src of
           Some (TextContent b64) \<Rightarrow>
             (if b64 = [] then [] else (case atob h b64 of Some decoded \<Rightarrow> decoded | None \<Rightarrow> b64))
         | Some (BufferContent bytes) \<Rightarrow> decodeUtf8 h bytes
         | _ \<Rightarrow> [])
      else [])"

text \<open>
  The loop of \<^verbatim>\<open>splitIntoChunks\<close>, with its cursor and the chunks pushed so far. With a
  chunk size of zero the cursor never moves: the loop is partial.
\<close>

partial_function (option) splitLoop :: "string \<Rightarrow> nat \<Rightarrow> nat \<Rightarrow> string list \<Rightarrow> string list option" where
  "splitLoop text chunkSize cursor chunks =
     (if cursor < length text
      then splitLoop text chunkSize (cursor + chunkSize) (chunks @ [take chunkSize (drop cursor text)])
      else Some chunks)"

declare splitLoop.simps [code]

definition splitIntoChunks :: "string \<Rightarrow> nat \<Rightarrow> string list option" where
  "splitIntoChunks text chunkSize = splitLoop text chunkSize 0 []"

text \<open>The chunk objects of one source: \<^verbatim>\<open>.map((chunk, index) => ({...}))\<close>.\<close>

definition chunkSet :: "source \<Rightarrow> string list \<Rightarrow> chunk list" where
  "chunkSet src pieces =
     map (\<lambda>(index, piece).
       \<lparr>chunkId = str_or (sourceId src) (str_or (sourceUrl src) (str_or (label src) ''source''))
                    @ ''-'' @ decimal index,
        chunkText = piece,
        sourceTitle = str_or (label src) (str_or (sourceHeading src)
                        (str_or (sourceUrl src) ''User Provided Material'')),
        reference = str_or (sourceUrl src) (str_or (label src) ''Uploaded text''),
        url = (if str_or (sourceUrl src) [] = [] then None else sourceUrl src)\<rparr>)
       (zip [0..<length pieces] pieces)"

text \<open>The body of the loop of \<^verbatim>\<open>chunkSources\<close> for one source: the chunks it adds.\<close>

definition chunksOfSource :: "chunk_host \<Rightarrow> source \<Rightarrow> chunk list option" where
  "chunksOfSource h src =
     (let text = resolveSourceText h src
      in if text = [] then Some []
         else (case splitIntoChunks (sanitiseText text) DEFAULT_CHUNK_SIZE of
                 None \<Rightarrow> None
               | Some pieces \<Rightarrow> Some (chunkSet src pieces)))"

fun chunkSourcesFrom :: "chunk_host \<Rightarrow> source list \<Rightarrow> chunk list \<Rightarrow> chunk list option" where
  "chunkSourcesFrom h [] chunks = Some chunks"
| "chunkSourcesFrom h (src # rest) chunks =
     (case chunksOfSource h src of
        None \<Rightarrow> None
      | Some added \<Rightarrow> chunkSourcesFrom h rest (chunks @ added))"

definition chunkSources :: "chunk_host \<Rightarrow> source list \<Rightarrow> chunk list option" where
  "chunkSources h sources = chunkSourcesFrom h sources []"

text \<open>
  What it is for a list of pieces to be the windows of a text: their concatenation is the
  text, none is empty or longer than 900 characters, and all but the last have exactly 900.
\<close>

definition windowsOf :: "string \<Rightarrow> string list \<Rightarrow> bool" where
  "windowsOf t pieces =
     (concat pieces = t
      \<and> (\<forall>p \<in> set pieces. p \<noteq> [] \<and> length p \<le> 900)
      \<and> (\<forall>p \<in> set (butlast pieces). length p = 900))"

text \<open>Sample values: a host without network, and pasted notes.\<close>

definition offline_host :: chunk_host where
  "offline_host = \<lparr>fetch = (\<lambda>u. None), atob = (\<lambda>s. None), decodeUtf8 = (\<lambda>bytes. bytes)\<rparr>"

definition pasted_note :: "string \<Rightarrow> source" where
  "pasted_note v = \<lparr>sourceType = ''text'', sourceId = None, sourceUrl = None, label = Some ''Note 1'',
     sourceHeading = None, sourceValue = Some v, sourceText = None, sourceContent = None\<rparr>"

subsection \<open>The loop returns, and what it returns\<close>

lemma splitLoop_returns:
  assumes "0 < n"
  shows "\<exists>pieces. splitLoop t n cursor acc = Some (acc @ pieces)
           \<and> concat pieces = drop cursor t
           \<and> (\<forall>p \<in> set pieces. p \<noteq> [] \<and> length p \<le> n)
           \<and> (\<forall>p \<in> set (butlast pieces). length p = n)"
proof (induction "length t - cursor" arbitrary: cursor acc rule: less_induct)
  case less
  show ?case
  proof (cases "cursor < length t")
    case False
    then have "splitLoop t n cursor acc = Some (acc @ [])"
      by (subst splitLoop.simps) simp
    moreover from False have "concat [] = drop cursor t" by simp
    ultimately show ?thesis by fastforce
  next
    case True
    let ?piece = "take n (drop cursor t)"
    from True assms have smaller: "length t - (cursor + n) < length t - cursor" by arith
    from less [OF smaller, of "acc @ [?piece]"] obtain pieces where
      run: "splitLoop t n (cursor + n) (acc @ [?piece]) = Some ((acc @ [?piece]) @ pieces)"
      and cat: "concat pieces = drop (cursor + n) t"
      and each: "\<forall>p \<in> set pieces. p \<noteq> [] \<and> length p \<le> n"
      and full: "\<forall>p \<in> set (butlast pieces). length p = n"
      by blast
    from True have "splitLoop t n cursor acc = splitLoop t n (cursor + n) (acc @ [?piece])"
      by (subst splitLoop.simps) simp
    with run have 1: "splitLoop t n cursor acc = Some (acc @ (?piece # pieces))" by simp
    have "?piece @ drop n (drop cursor t) = drop cursor t" by (rule append_take_drop_id)
    with cat have 2: "concat (?piece # pieces) = drop cursor t"
      by (simp add: add.commute)
    from True assms have 3: "?piece \<noteq> [] \<and> length ?piece \<le> n" by simp
    have 4: "length ?piece = n" if "pieces \<noteq> []"
    proof -
      from that each have "concat pieces \<noteq> []" by (cases pieces) auto
      with cat have "cursor + n < length t" by simp
      then show ?thesis by simp
    qed
    from 3 each have 5: "\<forall>p \<in> set (?piece # pieces). p \<noteq> [] \<and> length p \<le> n" by simp
    from 4 full have 6: "\<forall>p \<in> set (butlast (?piece # pieces)). length p = n" by simp
    from 1 2 5 6 show ?thesis by blast
  qed
qed

lemma splitIntoChunks_single:
  assumes "0 < n" and "t \<noteq> []" and "length t \<le> n"
  shows "splitIntoChunks t n = Some [t]"
proof -
  from assms have "splitLoop t n 0 [] = splitLoop t n n [t]"
    by (subst splitLoop.simps) simp
  also from assms have "\<dots> = Some [t]"
    by (subst splitLoop.simps) simp
  finally show ?thesis by (simp add: splitIntoChunks_def)
qed

lemma sanitiseText_Nil: "sanitiseText [] = []"
  by (simp add: sanitiseText_def trim_def replaceNbsp_def)

lemma chunkText_chunkSet: "map chunkText (chunkSet src pieces) = pieces"
  by (simp add: chunkSet_def map_idI comp_def case_prod_unfold map_snd_zip)

lemma length_chunkSet: "length (chunkSet src pieces) = length pieces"
  by (simp add: chunkSet_def)

lemma chunksOfSource_returns:
  "\<exists>pieces. chunksOfSource h src = Some (chunkSet src pieces)
      \<and> concat pieces = sanitiseText (resolveSourceText h src)
      \<and> (\<forall>p \<in> set pieces. p \<noteq> [] \<and> length p \<le> 900)
      \<and> (\<forall>p \<in> set (butlast pieces). length p = 900)"
proof (cases "resolveSourceText h src = []")
  case True
  then have "chunksOfSource h src = Some (chunkSet src [])"
    by (simp add: chunksOfSource_def chunkSet_def)
  with True show ?thesis by (fastforce simp: sanitiseText_Nil)
next
  case False
  have "(0::nat) < 900" by simp
  from splitLoop_returns [OF this, of "sanitiseText (resolveSourceText h src)" 0 "[]"]
  obtain pieces where "splitIntoChunks (sanitiseText (resolveSourceText h src)) 900 = Some pieces"
    and "concat pieces = sanitiseText (resolveSourceText h src)"
    and "\<forall>p \<in> set pieces. p \<noteq> [] \<and> length p \<le> 900"
    and "\<forall>p \<in> set (butlast pieces). length p = 900"
    by (auto simp: splitIntoChunks_def)
  with False show ?thesis
    by (auto simp: chunksOfSource_def DEFAULT_CHUNK_SIZE_def)
qed

lemma chunkSourcesFrom_concat:
  "\<exists>per. chunkSourcesFrom h srcs acc = Some (acc @ concat per)
      \<and> list_all2 (\<lambda>src added. chunksOfSource h src = Some added) srcs per"
proof (induction srcs arbitrary: acc)
  case Nil
  have "chunkSourcesFrom h [] acc = Some (acc @ concat [])" by simp
  then show ?case by blast
next
  case (Cons src rest)
  from chunksOfSource_returns [of h src] obtain added where a: "chunksOfSource h src = Some added"
    by blast
  from Cons [of "acc @ added"] obtain per where
    "chunkSourcesFrom h rest (acc @ added) = Some ((acc @ added) @ concat per)"
    and "list_all2 (\<lambda>src added. chunksOfSource h src = Some added) rest per"
    by blast
  with a have "chunkSourcesFrom h (src # rest) acc = Some (acc @ concat (added # per))
      \<and> list_all2 (\<lambda>src added. chunksOfSource h src = Some added) (src # rest) (added # per)"
    by simp
  then show ?case by blast
qed


text \<open>
  C9, as the code has it. Chunking returns, and its chunks are those of the sources in
  source order. The chunks of one source are the windows of its resolved, normalised text:
  their texts concatenate to it, none is empty, all but the last have exactly 900
  characters and the last has at most 900. So a source whose normalised text is not empty
  and has at most 900 characters yields exactly one chunk, the text itself; a source whose
  normalised text is empty yields none.
\<close>

theorem chunkSources_windows:
  "\<exists>per. chunkSources h sources = Some (concat per)
     \<and> list_all2 (\<lambda>src added. windowsOf (sanitiseText (resolveSourceText h src)) (map chunkText added))
         sources per
     \<and> list_all2 (\<lambda>src added.
           (sanitiseText (resolveSourceText h src) = [] \<longrightarrow> added = [])
           \<and> (sanitiseText (resolveSourceText h src) \<noteq> []
                \<and> length (sanitiseText (resolveSourceText h src)) \<le> 900
              \<longrightarrow> map chunkText added = [sanitiseText (resolveSourceText h src)]))
         sources per"
proof -
  from chunkSourcesFrom_concat [of h sources "[]"] obtain per where
    run: "chunkSources h sources = Some (concat per)"
    and per: "list_all2 (\<lambda>src added. chunksOfSource h src = Some added) sources per"
    by (auto simp: chunkSources_def)
  have one: "windowsOf (sanitiseText (resolveSourceText h src)) (map chunkText added)
      \<and> (sanitiseText (resolveSourceText h src) = [] \<longrightarrow> added = [])
      \<and> (sanitiseText (resolveSourceText h src) \<noteq> []
           \<and> length (sanitiseText (resolveSourceText h src)) \<le> 900
         \<longrightarrow> map chunkText added = [sanitiseText (resolveSourceText h src)])"
    if added: "chunksOfSource h src = Some added" for src added
  proof -
    let ?t = "sanitiseText (resolveSourceText h src)"
    from chunksOfSource_returns [of h src] added obtain pieces where
      eq: "added = chunkSet src pieces"
      and cat: "concat pieces = ?t"
      and each: "\<forall>p \<in> set pieces. p \<noteq> [] \<and> length p \<le> 900"
      and full: "\<forall>p \<in> set (butlast pieces). length p = 900"
      by auto
    from cat each full have w: "windowsOf ?t (map chunkText added)"
      by (simp add: windowsOf_def eq chunkText_chunkSet)
    have none: "added = []" if "?t = []"
    proof -
      from that cat each have "pieces = []" by (cases pieces) auto
      then show ?thesis by (simp add: eq chunkSet_def)
    qed
    have single: "map chunkText added = [?t]" if "?t \<noteq> []" and "length ?t \<le> 900"
    proof (cases "resolveSourceText h src = []")
      case True
      with that show ?thesis by (simp add: sanitiseText_Nil)
    next
      case False
      have "(0::nat) < 900" by simp
      from splitIntoChunks_single [OF this that] False added
      have "added = chunkSet src [?t]"
        by (simp add: chunksOfSource_def DEFAULT_CHUNK_SIZE_def)
      then show ?thesis by (simp add: chunkText_chunkSet)
    qed
    from w none single show ?thesis by blast
  qed
  from per one have
    "list_all2 (\<lambda>src added. windowsOf (sanitiseText (resolveSourceText h src)) (map chunkText added))
       sources per"
    by (auto elim: list_all2_mono)
  moreover from per one have
    "list_all2 (\<lambda>src added.
         (sanitiseText (resolveSourceText h src) = [] \<longrightarrow> added = [])
         \<and> (sanitiseText (resolveSourceText h src) \<noteq> []
              \<and> length (sanitiseText (resolveSourceText h src)) \<le> 900
            \<longrightarrow> map chunkText added = [sanitiseText (resolveSourceText h src)]))
       sources per"
    by (auto elim!: list_all2_mono)
  ultimately show ?thesis using run by blast
qed

lemma sanitise_note_greeting:
  "sanitiseText (resolveSourceText offline_host (pasted_note ''  hello   world '')) = ''hello world''"
  by (simp add: resolveSourceText_def pasted_note_def str_or_def sanitiseText_def trim_def
      replaceNbsp_def isSpace_def)

lemma sanitise_note_blank:
  "sanitiseText (resolveSourceText offline_host (pasted_note ''   '')) = []"
  by (simp add: resolveSourceText_def pasted_note_def str_or_def sanitiseText_def trim_def
      replaceNbsp_def isSpace_def)

theorem chunkSources_windows_witness:
  "\<exists>per. chunkSources offline_host [pasted_note ''  hello   world '', pasted_note ''   ''] = Some (concat per)
     \<and> sanitiseText (resolveSourceText offline_host (pasted_note ''  hello   world '')) = ''hello world''
     \<and> length ''hello world'' \<le> 900
     \<and> sanitiseText (resolveSourceText offline_host (pasted_note ''   '')) = []
     \<and> map (map chunkText) per = [[''hello world''], []]"
proof -
  from chunkSources_windows [of offline_host "[pasted_note ''  hello   world '', pasted_note ''   '']"]
  obtain per where run: "chunkSources offline_host [pasted_note ''  hello   world '', pasted_note ''   ''] = Some (concat per)"
    and single: "list_all2 (\<lambda>src added.
           (sanitiseText (resolveSourceText offline_host src) = [] \<longrightarrow> added = [])
           \<and> (sanitiseText (resolveSourceText offline_host src) \<noteq> []
                \<and> length (sanitiseText (resolveSourceText offline_host src)) \<le> 900
              \<longrightarrow> map chunkText added = [sanitiseText (resolveSourceText offline_host src)]))
         [pasted_note ''  hello   world '', pasted_note ''   ''] per"
    by blast
  from single obtain a b where per: "per = [a, b]"
    by (auto simp: list_all2_Cons1)
  from single have "map chunkText a = [''hello world'']" and "b = []"
    by (simp_all add: per sanitise_note_greeting sanitise_note_blank)
  with run show ?thesis
    by (intro exI [of _ per]) (simp add: per sanitise_note_greeting sanitise_note_blank)
qed

text \<open>
  The claim as the specification states it, that every source whose normalised text is
  shorter than the window yields exactly one chunk, fails on a note of white space only: its
  normalised text is empty, and the loop of \<^const>\<open>splitLoop\<close> is not entered.
\<close>

theorem chunkSources_blank_counterexample:
  "length (sanitiseText (resolveSourceText offline_host (pasted_note ''   ''))) < 900
   \<and> chunkSources offline_host [pasted_note ''   ''] = Some []"
  by (simp add: sanitise_note_blank chunkSources_def chunksOfSource_def resolveSourceText_def
      pasted_note_def str_or_def splitIntoChunks_def splitLoop.simps DEFAULT_CHUNK_SIZE_def chunkSet_def
      sanitiseText_def trim_def replaceNbsp_def isSpace_def)

section \<open>Persistence: lessons, flashcards, statistics\<close>

subsection \<open>The canonical result and the stored lesson\<close>

text \<open>
  The canonical result every backend and the offline fallback produce. A source is a pair
  of a title and a reference.
\<close>

type_synonym source_ref = "string \<times> string"

record lesson_result =
  title :: string
  summary :: "string list"
  lesson :: string
  flashcards :: "candidate list"
  sources :: "source_ref list"
  exercise :: string

text \<open>
  The stored lesson; its fields are \<^verbatim>\<open>id\<close>, \<^verbatim>\<open>date\<close>, \<^verbatim>\<open>title\<close>, \<^verbatim>\<open>summary\<close>,
  \<^verbatim>\<open>body\<close>, \<^verbatim>\<open>sources\<close>, \<^verbatim>\<open>exercise\<close>, \<^verbatim>\<open>generatedAt\<close> and \<^verbatim>\<open>mode\<close>.
\<close>

record lesson_record =
  lessonId :: string
  date :: string
  lessonTitle :: string
  lessonSummary :: "string list"
  body :: string
  lessonSources :: "source_ref list"
  lessonExercise :: string
  generatedAt :: string
  lessonMode :: string

text \<open>The four keys of \<^verbatim>\<open>chrome.storage.local\<close> the pipeline writes; a key may be unset.\<close>

record store =
  LESSONS :: "lesson_record list option"
  FLASHCARDS :: "flashcard list option"
  STATS :: "stats option"
  LAST_GENERATED_AT :: "string option"

definition defaultStats :: stats where
  "defaultStats = \<lparr>streak = Some 0, lastLessonDate = None, totalLessons = Some 0,
     totalFlashcardsReviewed = Some 0, flashcardsGeneratedToday = None\<rparr>"

subsection \<open>Merging flashcards\<close>

text \<open>\<^verbatim>\<open>a || b\<close> on two optional numbers.\<close>

definition opt_or :: "number option \<Rightarrow> number option \<Rightarrow> number option" where
  "opt_or a b = (case a of None \<Rightarrow> b | Some x \<Rightarrow> if x = 0 then b else Some x)"

text \<open>
  \<^verbatim>\<open>new Map(existing.map((card, index) => [card.question, index]))\<close>: a later entry with
  the same key replaces an earlier one.
\<close>

definition indexByQuestion :: "flashcard list \<Rightarrow> (string \<rightharpoonup> nat)" where
  "indexByQuestion existing =
     fold (\<lambda>(q, index) m. m(q \<mapsto> index)) (zip (map question existing) [0..<length existing]) Map.empty"

text \<open>The object written over \<^verbatim>\<open>merged[index]\<close> for an incoming card with a known question.\<close>

definition refreshed :: "flashcard \<Rightarrow> flashcard \<Rightarrow> flashcard" where
  "refreshed old c =
     old\<lparr>sourceLessonId := sourceLessonId c,
         interval := interval c,
         easeFactor := opt_or (easeFactor old) (easeFactor c),
         repetitions := Some (num_or (repetitions old) 0),
         dueDate := dueDate c\<rparr>"

definition mergeStep :: "(string \<rightharpoonup> nat) \<Rightarrow> flashcard \<Rightarrow> flashcard list \<Rightarrow> flashcard list" where
  "mergeStep idx c merged =
     (case idx (question c) of
        Some index \<Rightarrow> merged[index := refreshed (merged ! index) c]
      | None \<Rightarrow> merged @ [c])"

definition mergeFlashcards :: "flashcard list \<Rightarrow> flashcard list \<Rightarrow> flashcard list" where
  "mergeFlashcards existing incoming = fold (mergeStep (indexByQuestion existing)) incoming existing"

text \<open>What the loop leaves at one position of the existing cards, one incoming card at a time.\<close>

definition refreshAt :: "(string \<rightharpoonup> nat) \<Rightarrow> nat \<Rightarrow> flashcard \<Rightarrow> flashcard \<Rightarrow> flashcard" where
  "refreshAt idx i c old = (if idx (question c) = Some i then refreshed old c else old)"

subsection \<open>Statistics\<close>

text \<open>
  The operations of \<^verbatim>\<open>Date\<close> that \<^verbatim>\<open>updateStats\<close> uses, on time values in milliseconds:
  \<^verbatim>\<open>new Date(key)\<close> (\<^term>\<open>None\<close> for an invalid date), \<^verbatim>\<open>getDate\<close> and \<^verbatim>\<open>setDate\<close> (in
  the local time zone of the host) and \<^verbatim>\<open>toISOString\<close> (in UTC).
\<close>

record date_host =
  newDate :: "string \<Rightarrow> int option"
  getDate :: "int \<Rightarrow> int"
  setDate :: "int \<Rightarrow> int \<Rightarrow> int"
  toISOString :: "int \<Rightarrow> string"

text \<open>
  The key the code takes for yesterday's; \<^term>\<open>None\<close> when \<^verbatim>\<open>toISOString\<close> throws a
  \<^verbatim>\<open>RangeError\<close> on an invalid date.
\<close>

definition yesterdayKey :: "date_host \<Rightarrow> string \<Rightarrow> string option" where
  "yesterdayKey dh todayKey =
     (case newDate dh todayKey of
        None \<Rightarrow> None
      | Some yesterday \<Rightarrow> Some (take 10 (toISOString dh (setDate dh yesterday (getDate dh yesterday - 1)))))"

definition updateStats :: "date_host \<Rightarrow> stats \<Rightarrow> string \<Rightarrow> nat \<Rightarrow> stats option" where
  "updateStats dh st todayKey newCardCount =
     (case yesterdayKey dh todayKey of
        None \<Rightarrow> None
      | Some yKey \<Rightarrow>
          Some (st\<lparr>streak :=
                      (if lastLessonDate st = Some todayKey then streak st
                       else if lastLessonDate st = Some yKey then Some (num_or (streak st) 0 + 1)
                       else Some 1),
                    lastLessonDate := Some todayKey,
                    totalLessons := Some (num_or (totalLessons st) 0 + 1),
                    totalFlashcardsReviewed := Some (num_or (totalFlashcardsReviewed st) 0),
                    flashcardsGeneratedToday := Some (of_nat newCardCount)\<rparr>))"

subsection \<open>A host's calendar\<close>

text \<open>
  A \<^typ>\<open>date_host\<close> as ECMAScript defines the four operations, for a host whose local
  time is UTC plus an offset. The civil calendar is the proleptic Gregorian one; a day
  number counts days from 1970-01-01.
\<close>

definition msPerDay :: int where
  "msPerDay = 86400000"

definition daysFromCivil :: "int \<Rightarrow> int \<Rightarrow> int \<Rightarrow> int" where
  "daysFromCivil y m d =
     (let y' = (if m \<le> 2 then y - 1 else y);
          era = y' div 400;
          yoe = y' - era * 400;
          mp = (if 2 < m then m - 3 else m + 9);
          doy = (153 * mp + 2) div 5 + d - 1;
          doe = yoe * 365 + yoe div 4 - yoe div 100 + doy
      in era * 146097 + doe - 719468)"

definition civilFromDays :: "int \<Rightarrow> int \<times> int \<times> int" where
  "civilFromDays days =
     (let z = days + 719468;
          era = z div 146097;
          doe = z - era * 146097;
          yoe = (doe - doe div 1460 + doe div 36524 - doe div 146096) div 365;
          doy = doe - (365 * yoe + yoe div 4 - yoe div 100);
          mp = (5 * doy + 2) div 153;
          d = doy - (153 * mp + 2) div 5 + 1;
          m = (if mp < 10 then mp + 3 else mp - 9)
      in (yoe + era * 400 + (if m \<le> 2 then 1 else 0), m, d))"

definition digitValue :: "char \<Rightarrow> int option" where
  "digitValue ch = (let n = (of_char ch :: nat) in if 48 \<le> n \<and> n \<le> 57 then Some (int n - 48) else None)"

fun digitsValue :: "string \<Rightarrow> int option" where
  "digitsValue [] = Some 0"
| "digitsValue (ch # rest) =
     (case (digitValue ch, digitsValue rest) of
        (Some v, Some w) \<Rightarrow> Some (v * 10 ^ length rest + w)
      | _ \<Rightarrow> None)"

text \<open>
  \<^verbatim>\<open>new Date(key)\<close> for the date-only form \<^verbatim>\<open>YYYY-MM-DD\<close>, the form of the keys the
  pipeline makes: midnight UTC of that day. Any other string is taken as an invalid date.
\<close>

definition parseDateKey :: "string \<Rightarrow> int option" where
  "parseDateKey s =
     (if length s = 10 \<and> s ! 4 = CHR ''-'' \<and> s ! 7 = CHR ''-'' then
        (case (digitsValue (take 4 s), digitsValue (take 2 (drop 5 s)), digitsValue (drop 8 s)) of
           (Some y, Some m, Some d) \<Rightarrow>
             (if 1 \<le> m \<and> m \<le> 12 \<and> 1 \<le> d \<and> d \<le> 31 then Some (daysFromCivil y m d * msPerDay) else None)
         | _ \<Rightarrow> None)
      else None)"

definition padded :: "nat \<Rightarrow> int \<Rightarrow> string" where
  "padded width v = replicate (width - length (decimal (nat v))) CHR ''0'' @ decimal (nat v)"

definition isoString :: "int \<Rightarrow> string" where
  "isoString t =
     (let (y, m, d) = civilFromDays (t div msPerDay);
          ms = t mod msPerDay
      in (if 0 \<le> y \<and> y \<le> 9999 then padded 4 y
          else (if y < 0 then ''-'' else ''+'') @ padded 6 \<bar>y\<bar>)
         @ ''-'' @ padded 2 m @ ''-'' @ padded 2 d
         @ ''T'' @ padded 2 (ms div 3600000) @ '':'' @ padded 2 (ms div 60000 mod 60)
         @ '':'' @ padded 2 (ms div 1000 mod 60) @ ''.'' @ padded 3 (ms mod 1000) @ ''Z'')"

text \<open>
  The host of a time zone: \<^term>\<open>offsetAt\<close> is the offset of local time at a UTC time
  value, \<^term>\<open>offsetOfLocal\<close> the offset in force at a local time value. \<^verbatim>\<open>getDate\<close> is
  the day of the month of the local time; \<^verbatim>\<open>setDate\<close> keeps the local year, month and
  time of day, sets the day of the month and converts back.
\<close>

definition zoned_host :: "(int \<Rightarrow> int) \<Rightarrow> (int \<Rightarrow> int) \<Rightarrow> date_host" where
  "zoned_host offsetAt offsetOfLocal =
     \<lparr>newDate = parseDateKey,
      getDate = (\<lambda>t. snd (snd (civilFromDays ((t + offsetAt t) div msPerDay)))),
      setDate = (\<lambda>t dt.
        (let local = t + offsetAt t;
             (y, m, d) = civilFromDays (local div msPerDay);
             moved = (daysFromCivil y m 1 + dt - 1) * msPerDay + local mod msPerDay
         in moved - offsetOfLocal moved)),
      toISOString = isoString\<rparr>"

definition utc_host :: date_host where
  "utc_host = zoned_host (\<lambda>t. 0) (\<lambda>t. 0)"

text \<open>
  Central European time around the end of summer time in 2024: two hours ahead of UTC until
  2024-10-27T01:00:00Z (03:00 local time), one hour from then on.
\<close>

definition berlin_autumn_2024 :: date_host where
  "berlin_autumn_2024 =
     zoned_host (\<lambda>t. if t < 1729990800000 then 7200000 else 3600000)
       (\<lambda>local. if local < 1729998000000 then 7200000 else 3600000)"

subsection \<open>The persistence step\<close>

text \<open>
  The clock of one persistence step: \<^verbatim>\<open>new Date().toISOString()\<close> for the lesson, and for
  the card at each index.
\<close>

record persist_clock =
  generatedIso :: string
  cardDueIso :: "nat \<Rightarrow> string"

text \<open>The part of the settings the core reads.\<close>

record user_settings =
  mode :: string
  topic :: "string option"
  backendPreference :: "string list option"
  ollamaModel :: "string option"
  promptApiModel :: "string option"
  promptApiTemperature :: "number option"

definition newLessonOf :: "persist_clock \<Rightarrow> lesson_result \<Rightarrow> string \<Rightarrow> user_settings \<Rightarrow> lesson_record" where
  "newLessonOf clk res todayKey cfg =
     \<lparr>lessonId = ''lesson-'' @ todayKey, date = todayKey, lessonTitle = title res,
      lessonSummary = summary res, body = lesson res, lessonSources = sources res,
      lessonExercise = exercise res, generatedAt = generatedIso clk, lessonMode = mode cfg\<rparr>"

text \<open>
  \<^verbatim>\<open>[...lessons.filter(...), newLesson].sort((a, b) => (a.date > b.date ? 1 : -1)).slice(-60)\<close>.
  On lessons of distinct dates the comparator is a strict total order, and the sorted array
  is the ascending one; \<^const>\<open>sort_key\<close> is that, and keeps the order of equal dates.
\<close>

definition updatedLessonsOf :: "lesson_record list \<Rightarrow> string \<Rightarrow> lesson_record \<Rightarrow> lesson_record list" where
  "updatedLessonsOf stored todayKey newLesson =
     (let sorted = sort_key date (filter (\<lambda>l. date l \<noteq> todayKey) stored @ [newLesson])
      in drop (length sorted - 60) sorted)"

definition newCardsOf :: "persist_clock \<Rightarrow> lesson_result \<Rightarrow> string \<Rightarrow> lesson_record \<Rightarrow> flashcard list" where
  "newCardsOf clk res todayKey newLesson =
     map (\<lambda>(index, c).
       \<lparr>question = question c, answer = answer c,
        interval = Some (nullish_or (interval c) 1),
        easeFactor = Some (nullish_or (easeFactor c) (5 / 2)),
        repetitions = Some (nullish_or (repetitions c) 0),
        cardId = ''card-'' @ todayKey @ ''-'' @ decimal index,
        sourceLessonId = Some (lessonId newLesson),
        dueDate = Some (cardDueIso clk index),
        lastReviewedAt = None, lastGrade = None\<rparr>)
       (zip [0..<length (flashcards res)] (flashcards res))"

text \<open>
  \<^term>\<open>None\<close> when \<^verbatim>\<open>updateStats\<close> throws: nothing is written then.
\<close>

definition persistDailyContent ::
  "date_host \<Rightarrow> persist_clock \<Rightarrow> store \<Rightarrow> lesson_result \<Rightarrow> string \<Rightarrow> user_settings \<Rightarrow> store option" where
  "persistDailyContent dh clk st res todayKey cfg =
     (let stored = nullish_or (LESSONS st) [];
          cards = nullish_or (FLASHCARDS st) [];
          stat = nullish_or (STATS st) defaultStats;
          newLesson = newLessonOf clk res todayKey cfg;
          updatedLessons = updatedLessonsOf stored todayKey newLesson;
          newCards = newCardsOf clk res todayKey newLesson;
          mergedCards = mergeFlashcards cards newCards
      in case updateStats dh stat todayKey (length newCards) of
           None \<Rightarrow> None
         | Some updatedStats \<Rightarrow>
             Some \<lparr>LESSONS = Some updatedLessons, FLASHCARDS = Some mergedCards,
                   STATS = Some updatedStats, LAST_GENERATED_AT = Some todayKey\<rparr>)"

text \<open>Sample cards: two cards of one generation run that ask the same question, and a card of the next day's run that asks it again.\<close>

definition generated_card :: "string \<Rightarrow> string \<Rightarrow> nat \<Rightarrow> flashcard" where
  "generated_card q day index =
     \<lparr>question = q, answer = ''See the lesson.'',
      interval = Some 1, easeFactor = Some (5 / 2), repetitions = Some 0,
      cardId = ''card-'' @ day @ ''-'' @ decimal index,
      sourceLessonId = Some (''lesson-'' @ day),
      dueDate = Some (day @ ''T09:00:00.000Z''), lastReviewedAt = None, lastGrade = None\<rparr>"

text \<open>Sample values for the persistence step.\<close>

definition sample_result :: lesson_result where
  "sample_result =
     \<lparr>title = ''Retrieval practice'', summary = [''Recall beats rereading.'', ''Space it.'', ''Mix it.''],
      lesson = ''<h2>Retrieval</h2><p>Test yourself.</p>'',
      flashcards = [\<lparr>question = ''What is SM-2?'', answer = ''A spacing schedule.'',
                      interval = None, easeFactor = None, repetitions = None\<rparr>],
      sources = [], exercise = ''Write one question.''\<rparr>"

definition sample_settings :: user_settings where
  "sample_settings =
     \<lparr>mode = ''autonomous'', topic = Some ''Learning how to learn'', backendPreference = None,
      ollamaModel = None, promptApiModel = None, promptApiTemperature = None\<rparr>"

definition sample_persist_clock :: persist_clock where
  "sample_persist_clock =
     \<lparr>generatedIso = ''2024-10-28T09:00:00.000Z'', cardDueIso = (\<lambda>index. ''2024-10-28T09:00:00.001Z'')\<rparr>"

definition stub_lesson :: "string \<Rightarrow> lesson_record" where
  "stub_lesson day =
     \<lparr>lessonId = ''lesson-'' @ day, date = day, lessonTitle = ''Offline reflection'',
      lessonSummary = [], body = ''<h2>Offline Study Day</h2>'', lessonSources = [],
      lessonExercise = ''Journal.'', generatedAt = day @ ''T09:00:00.000Z'', lessonMode = ''autonomous''\<rparr>"

text \<open>Sixty stored lessons, one for each of the first thirty days of November and of December 2024.\<close>

definition later_lessons :: "lesson_record list" where
  "later_lessons =
     map (\<lambda>n. stub_lesson (''2024-11-'' @ padded 2 (int n))) [1..<31]
     @ map (\<lambda>n. stub_lesson (''2024-12-'' @ padded 2 (int n))) [1..<31]"

definition store_of :: "lesson_record list \<Rightarrow> store" where
  "store_of ls = \<lparr>LESSONS = Some ls, FLASHCARDS = None, STATS = None, LAST_GENERATED_AT = None\<rparr>"

definition sample_stats :: stats where
  "sample_stats = \<lparr>streak = Some 5, lastLessonDate = Some ''2024-10-27'', totalLessons = Some 12,
     totalFlashcardsReviewed = Some 40, flashcardsGeneratedToday = Some 6\<rparr>"

subsection \<open>Merging: one index per question, the last incoming card wins\<close>

lemma indexByQuestion_snoc:
  "indexByQuestion (xs @ [x]) = (indexByQuestion xs)(question x \<mapsto> length xs)"
  by (simp add: indexByQuestion_def)

lemma indexByQuestion_Nil: "indexByQuestion [] = Map.empty"
  by (simp add: indexByQuestion_def)

lemma indexByQuestion_Some:
  "indexByQuestion xs q = Some i \<longleftrightarrow>
     i < length xs \<and> question (xs ! i) = q \<and> (\<forall>j < length xs. question (xs ! j) = q \<longrightarrow> j \<le> i)"
proof (induction xs arbitrary: i rule: rev_induct)
  case Nil
  then show ?case by (simp add: indexByQuestion_Nil)
next
  case (snoc x xs)
  show ?case
  proof (cases "question x = q")
    case True
    have "(length xs < Suc (length xs) \<and> question ((xs @ [x]) ! length xs) = q
        \<and> (\<forall>j < Suc (length xs). question ((xs @ [x]) ! j) = q \<longrightarrow> j \<le> length xs))"
      using True by simp
    moreover have "i = length xs"
      if "i < Suc (length xs)" and "\<forall>j < Suc (length xs). question ((xs @ [x]) ! j) = q \<longrightarrow> j \<le> i"
    proof -
      from that(2) True have "length xs \<le> i" by (simp add: nth_append)
      with that(1) show ?thesis by simp
    qed
    ultimately show ?thesis
      using True by (auto simp: indexByQuestion_snoc)
  next
    case False
    have "(i < length xs \<and> question (xs ! i) = q \<and> (\<forall>j < length xs. question (xs ! j) = q \<longrightarrow> j \<le> i))
      \<longleftrightarrow> (i < Suc (length xs) \<and> question ((xs @ [x]) ! i) = q
        \<and> (\<forall>j < Suc (length xs). question ((xs @ [x]) ! j) = q \<longrightarrow> j \<le> i))"
      using False by (auto simp: nth_append less_Suc_eq)
    with False snoc show ?thesis
      by (simp add: indexByQuestion_snoc)
  qed
qed

lemma indexByQuestion_None:
  "indexByQuestion xs q = None \<longleftrightarrow> q \<notin> question ` set xs"
  by (induction xs rule: rev_induct) (auto simp: indexByQuestion_Nil indexByQuestion_snoc)

lemma length_mergeStep:
  "length (mergeStep idx c merged) = length merged + (if idx (question c) = None then 1 else 0)"
  by (simp add: mergeStep_def split: option.splits)

lemma mergeStep_nth:
  assumes "i < n" and "n \<le> length merged" and "\<forall>q j. idx q = Some j \<longrightarrow> j < n"
  shows "mergeStep idx c merged ! i = refreshAt idx i c (merged ! i)"
proof (cases "idx (question c)")
  case None
  with assms show ?thesis by (simp add: mergeStep_def refreshAt_def nth_append)
next
  case (Some j)
  with assms have "j < length merged" by fastforce
  with Some assms show ?thesis
    by (auto simp: mergeStep_def refreshAt_def nth_list_update)
qed

lemma mergeStep_drop:
  assumes "n \<le> length merged" and "\<forall>q j. idx q = Some j \<longrightarrow> j < n"
  shows "drop n (mergeStep idx c merged) = drop n merged @ (if idx (question c) = None then [c] else [])"
proof (cases "idx (question c)")
  case None
  with assms show ?thesis by (simp add: mergeStep_def)
next
  case (Some j)
  with assms have "j < n" by blast
  with Some assms show ?thesis
    by (simp add: mergeStep_def drop_update_cancel)
qed

lemma fold_mergeStep:
  assumes "n \<le> length merged" and "\<forall>q j. idx q = Some j \<longrightarrow> j < n"
  shows "n \<le> length (fold (mergeStep idx) incoming merged)
    \<and> drop n (fold (mergeStep idx) incoming merged)
        = drop n merged @ filter (\<lambda>c. idx (question c) = None) incoming
    \<and> (\<forall>i < n. fold (mergeStep idx) incoming merged ! i = fold (refreshAt idx i) incoming (merged ! i))"
  using assms(1)
proof (induction incoming arbitrary: merged)
  case Nil
  then show ?case by simp
next
  case (Cons c incoming)
  have len: "n \<le> length (mergeStep idx c merged)"
    using Cons.prems by (simp add: length_mergeStep)
  from Cons.IH [OF len] mergeStep_drop [OF Cons.prems assms(2), of c]
    mergeStep_nth [OF _ Cons.prems assms(2), of _ c]
  show ?case by auto
qed


lemma refreshed_valid:
  assumes "easeFactor old = Some e" and "e \<noteq> 0" and "repetitions old = Some r"
  shows "refreshed old c = old\<lparr>sourceLessonId := sourceLessonId c, interval := interval c, dueDate := dueDate c\<rparr>"
  using assms by (cases old) (simp add: refreshed_def opt_or_def num_or_def)

lemma fold_refreshAt_valid:
  assumes "easeFactor old = Some e" and "e \<noteq> 0" and "repetitions old = Some r"
  shows "\<exists>s iv d. fold (refreshAt idx i) cs old = old\<lparr>sourceLessonId := s, interval := iv, dueDate := d\<rparr>"
proof (induction cs rule: rev_induct)
  case Nil
  have "old = old\<lparr>sourceLessonId := sourceLessonId old, interval := interval old, dueDate := dueDate old\<rparr>"
    by (cases old) simp
  then show ?case by (metis fold_simps(1))
next
  case (snoc c cs)
  then obtain s iv d where
    eq: "fold (refreshAt idx i) cs old = old\<lparr>sourceLessonId := s, interval := iv, dueDate := d\<rparr>"
    by blast
  let ?mid = "old\<lparr>sourceLessonId := s, interval := iv, dueDate := d\<rparr>"
  have mid: "easeFactor ?mid = Some e" "repetitions ?mid = Some r"
    using assms by simp_all
  show ?case
  proof (cases "idx (question c) = Some i")
    case True
    have "fold (refreshAt idx i) (cs @ [c]) old = refreshed ?mid c"
      using True eq by (simp add: refreshAt_def)
    also have "\<dots> = old\<lparr>sourceLessonId := sourceLessonId c, interval := interval c, dueDate := dueDate c\<rparr>"
      by (simp add: refreshed_valid [OF mid(1) assms(2) mid(2)])
    finally show ?thesis by blast
  next
    case False
    with eq have "fold (refreshAt idx i) (cs @ [c]) old = ?mid"
      by (simp add: refreshAt_def)
    then show ?thesis by blast
  qed
qed

lemma fold_refreshAt_none:
  assumes "\<forall>c \<in> set cs. idx (question c) \<noteq> Some i"
  shows "fold (refreshAt idx i) cs old = old"
  using assms by (induction cs arbitrary: old) (simp_all add: refreshAt_def)

lemma fold_refreshAt_last:
  assumes "easeFactor old = Some e" and "e \<noteq> 0" and "repetitions old = Some r"
    and "idx (question c) = Some i" and "\<forall>c' \<in> set after. idx (question c') \<noteq> Some i"
  shows "fold (refreshAt idx i) (before @ c # after) old
    = old\<lparr>sourceLessonId := sourceLessonId c, interval := interval c, dueDate := dueDate c\<rparr>"
proof -
  from fold_refreshAt_valid [OF assms(1-3), of idx i before] obtain s iv d where
    eq: "fold (refreshAt idx i) before old = old\<lparr>sourceLessonId := s, interval := iv, dueDate := d\<rparr>"
    by blast
  let ?mid = "old\<lparr>sourceLessonId := s, interval := iv, dueDate := d\<rparr>"
  have mid: "easeFactor ?mid = Some e" "repetitions ?mid = Some r"
    using assms by simp_all
  have "fold (refreshAt idx i) (before @ c # after) old = fold (refreshAt idx i) after (refreshed ?mid c)"
    using eq assms(4) by (simp add: refreshAt_def)
  also have "\<dots> = refreshed ?mid c"
    by (rule fold_refreshAt_none [OF assms(5)])
  also have "\<dots> = old\<lparr>sourceLessonId := sourceLessonId c, interval := interval c, dueDate := dueDate c\<rparr>"
    by (simp add: refreshed_valid [OF mid(1) assms(2) mid(2)])
  finally show ?thesis .
qed

lemma mergeFlashcards_parts:
  "drop (length existing) (mergeFlashcards existing incoming)
      = filter (\<lambda>c. question c \<notin> question ` set existing) incoming
   \<and> (\<forall>i < length existing. mergeFlashcards existing incoming ! i
         = fold (refreshAt (indexByQuestion existing) i) incoming (existing ! i))"
proof -
  have bound: "\<forall>q j. indexByQuestion existing q = Some j \<longrightarrow> j < length existing"
    by (simp add: indexByQuestion_Some)
  from fold_mergeStep [OF order_refl bound, of incoming]
  show ?thesis by (simp add: mergeFlashcards_def indexByQuestion_None)
qed

text \<open>
  C6, as the code has it. For every list of existing cards and every list of incoming
  cards: (1) where an incoming card's question is that of an existing card, the last
  existing card with that question, if it is in a valid state (ease factor at least 1.3,
  repetitions present), keeps every field but three: its lesson link, interval and due date
  become those of the last incoming card with that question; (2) every existing card in a
  valid state keeps its ease factor and repetitions; (3) an existing card whose question no
  incoming card has, or that is followed by another existing card with the same question,
  is unchanged; (4) the incoming cards with questions no existing card has are appended,
  unchanged and in their order.
\<close>

theorem mergeFlashcards_refresh:
  "(i < length existing \<and> question (existing ! i) = question c
      \<and> (\<forall>j < length existing. question (existing ! j) = question c \<longrightarrow> j \<le> i)
      \<and> incoming = before @ c # after \<and> (\<forall>c' \<in> set after. question c' \<noteq> question c)
      \<and> easeFactor (existing ! i) = Some e \<and> 13 / 10 \<le> e \<and> repetitions (existing ! i) = Some r
    \<longrightarrow> mergeFlashcards existing incoming ! i
          = (existing ! i)\<lparr>sourceLessonId := sourceLessonId c, interval := interval c, dueDate := dueDate c\<rparr>)
   \<and> (i < length existing \<and> easeFactor (existing ! i) = Some e \<and> 13 / 10 \<le> e
        \<and> repetitions (existing ! i) = Some r
      \<longrightarrow> easeFactor (mergeFlashcards existing incoming ! i) = Some e
          \<and> repetitions (mergeFlashcards existing incoming ! i) = Some r)
   \<and> (i < length existing
        \<and> (question (existing ! i) \<notin> question ` set incoming
            \<or> (\<exists>j < length existing. i < j \<and> question (existing ! j) = question (existing ! i)))
      \<longrightarrow> mergeFlashcards existing incoming ! i = existing ! i)
   \<and> drop (length existing) (mergeFlashcards existing incoming)
        = filter (\<lambda>c. question c \<notin> question ` set existing) incoming"
proof -
  let ?idx = "indexByQuestion existing"
  note parts = mergeFlashcards_parts [of existing incoming]
  have last_wins: "mergeFlashcards existing incoming ! i
      = (existing ! i)\<lparr>sourceLessonId := sourceLessonId c, interval := interval c, dueDate := dueDate c\<rparr>"
    if i: "i < length existing" and q: "question (existing ! i) = question c"
      and last: "\<forall>j < length existing. question (existing ! j) = question c \<longrightarrow> j \<le> i"
      and split: "incoming = before @ c # after" and later: "\<forall>c' \<in> set after. question c' \<noteq> question c"
      and valid: "easeFactor (existing ! i) = Some e" "13 / 10 \<le> e" "repetitions (existing ! i) = Some r"
  proof -
    from i q last have idx: "?idx (question c) = Some i"
      by (simp add: indexByQuestion_Some)
    have others: "\<forall>c' \<in> set after. ?idx (question c') \<noteq> Some i"
      using later q by (auto simp: indexByQuestion_Some)
    from valid(2) have "e \<noteq> 0" by auto
    from fold_refreshAt_last [OF valid(1) this valid(3) idx others, of before] parts i split
    show ?thesis by simp
  qed
  have kept: "easeFactor (mergeFlashcards existing incoming ! i) = Some e
      \<and> repetitions (mergeFlashcards existing incoming ! i) = Some r"
    if i: "i < length existing"
      and valid: "easeFactor (existing ! i) = Some e" "13 / 10 \<le> e" "repetitions (existing ! i) = Some r"
  proof -
    from valid(2) have "e \<noteq> 0" by auto
    from fold_refreshAt_valid [OF valid(1) this valid(3), of ?idx i incoming] obtain s iv d where
      "fold (refreshAt ?idx i) incoming (existing ! i)
        = (existing ! i)\<lparr>sourceLessonId := s, interval := iv, dueDate := d\<rparr>"
      by blast
    with parts i valid show ?thesis by simp
  qed
  have untouched: "mergeFlashcards existing incoming ! i = existing ! i"
    if i: "i < length existing"
      and why: "question (existing ! i) \<notin> question ` set incoming
        \<or> (\<exists>j < length existing. i < j \<and> question (existing ! j) = question (existing ! i))"
  proof -
    have "\<forall>c' \<in> set incoming. ?idx (question c') \<noteq> Some i"
    proof
      fix c' assume c': "c' \<in> set incoming"
      show "?idx (question c') \<noteq> Some i"
      proof
        assume "?idx (question c') = Some i"
        then have "question (existing ! i) = question c'"
          and "\<forall>j < length existing. question (existing ! j) = question c' \<longrightarrow> j \<le> i"
          by (simp_all add: indexByQuestion_Some)
        with why c' show False by force
      qed
    qed
    from fold_refreshAt_none [OF this] parts i show ?thesis by simp
  qed
  from last_wins kept untouched parts show ?thesis by blast
qed


theorem mergeFlashcards_refresh_witness:
  "mergeFlashcards [sample_card 6 (5 / 2) 2]
      [generated_card ''What is spaced repetition?'' ''2024-05-02'' 0,
       generated_card ''What is SM-2?'' ''2024-05-02'' 1] ! 0
     = (sample_card 6 (5 / 2) 2)\<lparr>sourceLessonId := Some ''lesson-2024-05-02'',
          interval := Some 1, dueDate := Some ''2024-05-02T09:00:00.000Z''\<rparr>
   \<and> easeFactor (mergeFlashcards [sample_card 6 (5 / 2) 2]
        [generated_card ''What is spaced repetition?'' ''2024-05-02'' 0,
         generated_card ''What is SM-2?'' ''2024-05-02'' 1] ! 0) = Some (5 / 2)
   \<and> repetitions (mergeFlashcards [sample_card 6 (5 / 2) 2]
        [generated_card ''What is spaced repetition?'' ''2024-05-02'' 0,
         generated_card ''What is SM-2?'' ''2024-05-02'' 1] ! 0) = Some 2
   \<and> drop 1 (mergeFlashcards [sample_card 6 (5 / 2) 2]
        [generated_card ''What is spaced repetition?'' ''2024-05-02'' 0,
         generated_card ''What is SM-2?'' ''2024-05-02'' 1])
     = [generated_card ''What is SM-2?'' ''2024-05-02'' 1]"
proof -
  let ?old = "sample_card 6 (5 / 2) 2"
  let ?c = "generated_card ''What is spaced repetition?'' ''2024-05-02'' 0"
  let ?d = "generated_card ''What is SM-2?'' ''2024-05-02'' 1"
  have hyps: "0 < length [?old]" "question ([?old] ! 0) = question ?c"
    "\<forall>j < length [?old]. question ([?old] ! j) = question ?c \<longrightarrow> j \<le> 0"
    "[?c, ?d] = [] @ ?c # [?d]" "\<forall>c' \<in> set [?d]. question c' \<noteq> question ?c"
    "easeFactor ([?old] ! 0) = Some (5 / 2)" "(13::rat) / 10 \<le> 5 / 2" "repetitions ([?old] ! 0) = Some 2"
    by (simp_all add: sample_card_def generated_card_def)
  have fresh: "filter (\<lambda>c. question c \<notin> question ` set [?old]) [?c, ?d] = [?d]"
    by (simp add: sample_card_def generated_card_def)
  have fields: "sourceLessonId ?c = Some ''lesson-2024-05-02''" "interval ?c = Some 1"
    "dueDate ?c = Some ''2024-05-02T09:00:00.000Z''"
    by (simp_all add: generated_card_def)
  from mergeFlashcards_refresh [of 0 "[?old]" ?c "[?c, ?d]" "[]" "[?d]" "5 / 2" 2] hyps fresh fields
  show ?thesis by simp
qed

text \<open>
  The claim as the specification states it fails where two stored cards ask the same
  question, as they do after a run that produced the question twice (both cards are
  appended). A later card with that question refreshes the second of them only: the first
  keeps its due date and its lesson link.
\<close>

theorem mergeFlashcards_duplicate_counterexample:
  "mergeFlashcards [] [generated_card ''What is SM-2?'' ''2024-05-01'' 0, generated_card ''What is SM-2?'' ''2024-05-01'' 1]
     = [generated_card ''What is SM-2?'' ''2024-05-01'' 0, generated_card ''What is SM-2?'' ''2024-05-01'' 1]
   \<and> question (generated_card ''What is SM-2?'' ''2024-05-02'' 0)
       = question (generated_card ''What is SM-2?'' ''2024-05-01'' 0)
   \<and> dueDate (generated_card ''What is SM-2?'' ''2024-05-02'' 0) = Some ''2024-05-02T09:00:00.000Z''
   \<and> sourceLessonId (generated_card ''What is SM-2?'' ''2024-05-02'' 0) = Some ''lesson-2024-05-02''
   \<and> dueDate (mergeFlashcards
         [generated_card ''What is SM-2?'' ''2024-05-01'' 0, generated_card ''What is SM-2?'' ''2024-05-01'' 1]
         [generated_card ''What is SM-2?'' ''2024-05-02'' 0] ! 0) = Some ''2024-05-01T09:00:00.000Z''
   \<and> sourceLessonId (mergeFlashcards
         [generated_card ''What is SM-2?'' ''2024-05-01'' 0, generated_card ''What is SM-2?'' ''2024-05-01'' 1]
         [generated_card ''What is SM-2?'' ''2024-05-02'' 0] ! 0) = Some ''lesson-2024-05-01''"
  by (simp add: mergeFlashcards_def mergeStep_def indexByQuestion_def generated_card_def
      refreshed_def upt_rec)

subsection \<open>The streak\<close>

text \<open>
  The three cases of the streak, relative to the key that \<^const>\<open>yesterdayKey\<close> computes:
  unchanged when the last lesson date is today's key, one more than the prior streak (an
  absent one counting as 0) when it is the computed key, and 1 otherwise.
\<close>

lemma updateStats_streak_cases:
  assumes "yesterdayKey dh todayKey = Some yKey"
  shows "\<exists>st'. updateStats dh st todayKey n = Some st'
      \<and> (lastLessonDate st = Some todayKey \<longrightarrow> streak st' = streak st)
      \<and> (lastLessonDate st \<noteq> Some todayKey \<and> lastLessonDate st = Some yKey
            \<longrightarrow> streak st' = Some (num_or (streak st) 0 + 1))
      \<and> (lastLessonDate st \<noteq> Some todayKey \<and> lastLessonDate st \<noteq> Some yKey
            \<longrightarrow> streak st' = Some 1)
      \<and> lastLessonDate st' = Some todayKey"
  using assms by (simp add: updateStats_def)

lemma civil_20024: "civilFromDays 20024 = (2024, 10, 28)"
  by code_simp

lemma civil_20023: "civilFromDays 20023 = (2024, 10, 27)"
  by code_simp

lemma civil_20022: "civilFromDays 20022 = (2024, 10, 26)"
  by code_simp

lemma days_2024_10_28: "daysFromCivil 2024 10 28 = 20024"
  by code_simp

lemma days_2024_10_01: "daysFromCivil 2024 10 1 = 19997"
  by code_simp

lemma parse_2024_10_28: "parseDateKey ''2024-10-28'' = Some 1730073600000"
  by (simp add: parseDateKey_def digitValue_def days_2024_10_28 msPerDay_def)

lemma iso_2024_10_26: "take 10 (isoString 1729983600000) = ''2024-10-26''"
  by (simp add: isoString_def msPerDay_def civil_20022 padded_def digitChar_def)

lemma iso_2024_10_27: "take 10 (isoString 1729987200000) = ''2024-10-27''"
  by (simp add: isoString_def msPerDay_def civil_20023 padded_def digitChar_def)

lemma yesterdayKey_utc: "yesterdayKey utc_host ''2024-10-28'' = Some ''2024-10-27''"
proof -
  have "getDate utc_host 1730073600000 = 28"
    by (simp add: utc_host_def zoned_host_def msPerDay_def civil_20024)
  moreover have "setDate utc_host 1730073600000 27 = 1729987200000"
    by (simp add: utc_host_def zoned_host_def msPerDay_def civil_20024 days_2024_10_01)
  moreover have "newDate utc_host = parseDateKey" "toISOString utc_host = isoString"
    by (simp_all add: utc_host_def zoned_host_def)
  ultimately show ?thesis
    by (simp add: yesterdayKey_def parse_2024_10_28 iso_2024_10_27)
qed

lemma yesterdayKey_berlin: "yesterdayKey berlin_autumn_2024 ''2024-10-28'' = Some ''2024-10-26''"
proof -
  have "getDate berlin_autumn_2024 1730073600000 = 28"
    by (simp add: berlin_autumn_2024_def zoned_host_def msPerDay_def civil_20024)
  moreover have "setDate berlin_autumn_2024 1730073600000 27 = 1729983600000"
    by (simp add: berlin_autumn_2024_def zoned_host_def msPerDay_def civil_20024 days_2024_10_01)
  moreover have "newDate berlin_autumn_2024 = parseDateKey" "toISOString berlin_autumn_2024 = isoString"
    by (simp_all add: berlin_autumn_2024_def zoned_host_def)
  ultimately show ?thesis
    by (simp add: yesterdayKey_def parse_2024_10_28 iso_2024_10_26)
qed

text \<open>
  C8. On 2024-10-28, with a last lesson on 2024-10-27 and a streak of 5, the streak is to
  become 6. It does on a host in UTC. On a host in Central European time, summer time ended
  on 2024-10-27: \<^verbatim>\<open>new Date('2024-10-28')\<close> is 01:00 local time on the 28th, \<^verbatim>\<open>setDate\<close>
  moves to 01:00 local time on the 27th, which is still summer time and so 23:00 UTC on
  the 26th, and \<^verbatim>\<open>toISOString\<close> gives the key of the 26th. The last lesson date is then
  neither today's key nor the computed one, and the streak is reset to 1.
\<close>

theorem updateStats_summer_time_end:
  "yesterdayKey utc_host ''2024-10-28'' = Some ''2024-10-27''
   \<and> map_option streak (updateStats utc_host sample_stats ''2024-10-28'' 6) = Some (Some 6)
   \<and> lastLessonDate sample_stats = Some ''2024-10-27''
   \<and> yesterdayKey berlin_autumn_2024 ''2024-10-28'' = Some ''2024-10-26''
   \<and> map_option streak (updateStats berlin_autumn_2024 sample_stats ''2024-10-28'' 6) = Some (Some 1)"
  by (simp add: updateStats_def yesterdayKey_utc yesterdayKey_berlin sample_stats_def num_or_def)

subsection \<open>The lesson list\<close>

lemma distinct_dates_sort:
  "distinct (map date (sort_key date xs)) = distinct (map date xs)"
proof -
  have "mset (map date (sort_key date xs)) = mset (map date xs)" by simp
  then show ?thesis by (rule mset_eq_imp_distinct_iff)
qed

lemma updatedLessonsOf_props:
  assumes today: "date new = todayKey"
  shows "length (updatedLessonsOf stored todayKey new) \<le> 60"
    and "set (updatedLessonsOf stored todayKey new) \<subseteq> insert new {l \<in> set stored. date l \<noteq> todayKey}"
    and "sorted (map date (updatedLessonsOf stored todayKey new))"
    and "distinct (map date stored) \<Longrightarrow> distinct (map date (updatedLessonsOf stored todayKey new))"
proof -
  let ?L = "filter (\<lambda>l. date l \<noteq> todayKey) stored @ [new]"
  let ?S = "sort_key date ?L"
  show "length (updatedLessonsOf stored todayKey new) \<le> 60"
    by (simp add: updatedLessonsOf_def Let_def)
  have "set (drop (length ?S - 60) ?S) \<subseteq> set ?S" by (rule set_drop_subset)
  then show "set (updatedLessonsOf stored todayKey new) \<subseteq> insert new {l \<in> set stored. date l \<noteq> todayKey}"
    by (auto simp: updatedLessonsOf_def Let_def)
  have "sorted (map date ?S)" by (rule sorted_sort_key)
  then have "sorted (drop (length ?S - 60) (map date ?S))" by (rule sorted_wrt_drop)
  then show "sorted (map date (updatedLessonsOf stored todayKey new))"
    by (simp add: updatedLessonsOf_def Let_def drop_map)
  assume "distinct (map date stored)"
  then have "distinct (map date (filter (\<lambda>l. date l \<noteq> todayKey) stored))"
    by (rule distinct_map_filter)
  with today have "distinct (map date ?L)" by auto
  then have "distinct (map date ?S)" by (simp only: distinct_dates_sort)
  then have "distinct (drop (length ?S - 60) (map date ?S))" by (rule distinct_drop)
  then show "distinct (map date (updatedLessonsOf stored todayKey new))"
    by (simp add: updatedLessonsOf_def Let_def drop_map)
qed

lemma updatedLessonsOf_keeps_new:
  assumes today: "date new = todayKey"
    and dist: "distinct (map date stored)"
    and few: "length (filter (\<lambda>l. todayKey < date l) stored) < 60"
  shows "new \<in> set (updatedLessonsOf stored todayKey new)"
proof (rule ccontr)
  define S where "S = sort_key date (filter (\<lambda>l. date l \<noteq> todayKey) stored @ [new])"
  define k where "k = length S - 60"
  have upd: "updatedLessonsOf stored todayKey new = drop k S"
    by (simp add: updatedLessonsOf_def Let_def S_def k_def)
  have setS: "set S = insert new {l \<in> set stored. date l \<noteq> todayKey}"
    by (auto simp: S_def)
  have split: "S = take k S @ drop k S" by simp
  assume "new \<notin> set (updatedLessonsOf stored todayKey new)"
  then have out: "new \<notin> set (drop k S)" unfolding upd .
  have "set S = set (take k S) \<union> set (drop k S)"
    by (metis split set_append)
  with setS out have inn: "new \<in> set (take k S)" by blast
  have "0 < k"
  proof (cases k)
    case 0
    with inn show ?thesis by simp
  next
    case (Suc m)
    then show ?thesis by simp
  qed
  then have len: "length (drop k S) = 60" by (simp add: k_def)
  have "sorted (map date S)" by (simp only: S_def sorted_sort_key)
  then have "sorted (map date (take k S) @ map date (drop k S))"
    by (metis split map_append)
  then have le: "\<forall>x \<in> set (take k S). \<forall>y \<in> set (drop k S). date x \<le> date y"
    by (simp add: sorted_append)
  have "distinct (map date (filter (\<lambda>l. date l \<noteq> todayKey) stored))"
    using dist by (rule distinct_map_filter)
  with today have "distinct (map date (filter (\<lambda>l. date l \<noteq> todayKey) stored @ [new]))" by auto
  then have dS: "distinct (map date S)" by (simp only: S_def distinct_dates_sort)
  then have "distinct (map date (take k S) @ map date (drop k S))"
    by (metis split map_append)
  then have disj: "date ` set (take k S) \<inter> date ` set (drop k S) = {}"
    by (simp only: distinct_append set_map)
  have later: "todayKey < date y \<and> y \<in> set stored" if y: "y \<in> set (drop k S)" for y
  proof -
    from le inn y have "date new \<le> date y" by blast
    moreover from disj inn y have "date new \<noteq> date y" by blast
    ultimately have "todayKey < date y" using today by simp
    moreover from y have "y \<in> set S" by (rule in_set_dropD)
    with setS have "y \<in> set stored \<or> y = new" by auto
    ultimately show ?thesis using today by auto
  qed
  from dS have "distinct S" by (simp only: distinct_map)
  then have "distinct (drop k S)" by (rule distinct_drop)
  then have "card (set (drop k S)) = 60" using len by (simp add: distinct_card)
  moreover have "set (drop k S) \<subseteq> set (filter (\<lambda>l. todayKey < date l) stored)"
    using later by auto
  then have "card (set (drop k S)) \<le> card (set (filter (\<lambda>l. todayKey < date l) stored))"
    by (intro card_mono) simp_all
  moreover have "card (set (filter (\<lambda>l. todayKey < date l) stored)) \<le> length (filter (\<lambda>l. todayKey < date l) stored)"
    by (rule card_length)
  ultimately show False using few by simp
qed

lemma filter_key_single:
  assumes "distinct (map f xs)" and "x \<in> set xs"
  shows "filter (\<lambda>y. f y = f x) xs = [x]"
  using assms
proof (induction xs)
  case Nil
  then show ?case by simp
next
  case (Cons a xs)
  show ?case
  proof (cases "a = x")
    case True
    with Cons.prems have "\<forall>y \<in> set xs. f y \<noteq> f x" by (auto simp: image_iff)
    then have "filter (\<lambda>y. f y = f x) xs = []" by (simp add: filter_empty_conv)
    with True show ?thesis by simp
  next
    case False
    with Cons.prems have "x \<in> set xs" "f a \<noteq> f x" by auto
    with Cons show ?thesis by simp
  qed
qed

lemma later_count_updated:
  assumes today: "date new = todayKey" and dist: "distinct (map date stored)"
  shows "length (filter (\<lambda>l. todayKey < date l) (updatedLessonsOf stored todayKey new))
    \<le> length (filter (\<lambda>l. todayKey < date l) stored)"
proof -
  define U where "U = updatedLessonsOf stored todayKey new"
  from updatedLessonsOf_props(4) [OF today dist] have "distinct (map date U)"
    by (simp only: U_def)
  then have "distinct U" by (simp only: distinct_map)
  then have "distinct (filter (\<lambda>l. todayKey < date l) U)" by (rule distinct_filter)
  then have cU: "card (set (filter (\<lambda>l. todayKey < date l) U)) = length (filter (\<lambda>l. todayKey < date l) U)"
    by (rule distinct_card)
  have "set (filter (\<lambda>l. todayKey < date l) U) \<subseteq> set (filter (\<lambda>l. todayKey < date l) stored)"
    using updatedLessonsOf_props(2) [OF today, of stored] today by (auto simp: U_def)
  then have "card (set (filter (\<lambda>l. todayKey < date l) U)) \<le> card (set (filter (\<lambda>l. todayKey < date l) stored))"
    by (intro card_mono) simp_all
  also have "\<dots> \<le> length (filter (\<lambda>l. todayKey < date l) stored)" by (rule card_length)
  finally show ?thesis unfolding cU unfolding U_def .
qed


lemma persistDailyContent_lessons_eq:
  assumes "persistDailyContent dh clk st res todayKey cfg = Some st'"
  shows "LESSONS st' = Some (updatedLessonsOf (nullish_or (LESSONS st) []) todayKey (newLessonOf clk res todayKey cfg))"
  using assms by (auto simp: persistDailyContent_def Let_def split: option.splits)

lemma persistDailyContent_returns:
  assumes "yesterdayKey dh todayKey = Some yKey"
  shows "\<exists>st'. persistDailyContent dh clk st res todayKey cfg = Some st'"
  using assms by (simp add: persistDailyContent_def Let_def updateStats_def)

lemma date_newLessonOf: "date (newLessonOf clk res todayKey cfg) = todayKey"
  by (simp add: newLessonOf_def)

text \<open>
  C7, as the code has it. After every persistence step the stored lesson list has at most 60
  entries. If the list it started from had at most one entry per day key, so has the new
  one. If moreover fewer than 60 of the stored lessons are dated after today (as when the
  clock never ran backwards), the new list has exactly one entry for today's key, the
  lesson just generated; and a second persistence step for the same day leaves exactly one
  entry for it again, the later lesson.
\<close>

theorem persistDailyContent_lessons:
  assumes "persistDailyContent dh clk st res todayKey cfg = Some st'"
  shows "(\<exists>ls. LESSONS st' = Some ls \<and> length ls \<le> 60
            \<and> (distinct (map date (nullish_or (LESSONS st) [])) \<longrightarrow> distinct (map date ls))
            \<and> (distinct (map date (nullish_or (LESSONS st) []))
                 \<and> length (filter (\<lambda>l. todayKey < date l) (nullish_or (LESSONS st) [])) < 60
               \<longrightarrow> filter (\<lambda>l. date l = todayKey) ls = [newLessonOf clk res todayKey cfg]
                   \<and> (\<forall>clk2 res2 cfg2 st2.
                        persistDailyContent dh clk2 st' res2 todayKey cfg2 = Some st2
                        \<longrightarrow> (\<exists>ls2. LESSONS st2 = Some ls2 \<and> length ls2 \<le> 60 \<and> distinct (map date ls2)
                               \<and> filter (\<lambda>l. date l = todayKey) ls2 = [newLessonOf clk2 res2 todayKey cfg2]))))"
proof -
  define stored where "stored = nullish_or (LESSONS st) []"
  define new where "new = newLessonOf clk res todayKey cfg"
  define ls where "ls = updatedLessonsOf stored todayKey new"
  have today: "date new = todayKey" by (simp add: new_def date_newLessonOf)
  have eq: "LESSONS st' = Some ls"
    using persistDailyContent_lessons_eq [OF assms] by (simp add: ls_def stored_def new_def)
  have len: "length ls \<le> 60"
    unfolding ls_def by (rule updatedLessonsOf_props(1) [OF today])
  have dist: "distinct (map date ls)" if "distinct (map date stored)"
    unfolding ls_def using today that by (rule updatedLessonsOf_props(4))
  have one: "filter (\<lambda>l. date l = todayKey) xs = [n]"
    if "distinct (map date xs)" and "n \<in> set xs" and "date n = todayKey" for xs n
    using filter_key_single [of date xs n] that by simp
  have single: "filter (\<lambda>l. date l = todayKey) ls = [new]"
    if d: "distinct (map date stored)" and few: "length (filter (\<lambda>l. todayKey < date l) stored) < 60"
  proof -
    have "new \<in> set ls"
      unfolding ls_def using today d few by (rule updatedLessonsOf_keeps_new)
    with dist [OF d] today show ?thesis by (intro one)
  qed
  have again: "\<exists>ls2. LESSONS st2 = Some ls2 \<and> length ls2 \<le> 60 \<and> distinct (map date ls2)
      \<and> filter (\<lambda>l. date l = todayKey) ls2 = [newLessonOf clk2 res2 todayKey cfg2]"
    if d: "distinct (map date stored)" and few: "length (filter (\<lambda>l. todayKey < date l) stored) < 60"
      and step: "persistDailyContent dh clk2 st' res2 todayKey cfg2 = Some st2"
    for clk2 res2 cfg2 st2
  proof -
    define new2 where "new2 = newLessonOf clk2 res2 todayKey cfg2"
    define ls2 where "ls2 = updatedLessonsOf ls todayKey new2"
    have today2: "date new2 = todayKey" by (simp add: new2_def date_newLessonOf)
    have eq2: "LESSONS st2 = Some ls2"
      using persistDailyContent_lessons_eq [OF step] eq by (simp add: ls2_def new2_def nullish_or_def)
    have "length (filter (\<lambda>l. todayKey < date l) ls) \<le> length (filter (\<lambda>l. todayKey < date l) stored)"
      unfolding ls_def using today d by (rule later_count_updated)
    with few have few2: "length (filter (\<lambda>l. todayKey < date l) ls) < 60" by simp
    have d2: "distinct (map date ls2)"
      unfolding ls2_def using today2 dist [OF d] by (rule updatedLessonsOf_props(4))
    have "new2 \<in> set ls2"
      unfolding ls2_def using today2 dist [OF d] few2 by (rule updatedLessonsOf_keeps_new)
    with d2 have "filter (\<lambda>l. date l = todayKey) ls2 = [new2]" using today2 by (intro one)
    moreover have "length ls2 \<le> 60"
      unfolding ls2_def by (rule updatedLessonsOf_props(1) [OF today2])
    ultimately show ?thesis using eq2 d2 by (simp add: new2_def)
  qed
  from eq len dist single again show ?thesis
    unfolding stored_def new_def by blast
qed

theorem persistDailyContent_lessons_witness:
  "\<exists>st'. persistDailyContent utc_host sample_persist_clock
        (store_of [stub_lesson ''2024-10-27'', stub_lesson ''2024-10-28'']) sample_result ''2024-10-28''
        sample_settings = Some st'
     \<and> distinct (map date [stub_lesson ''2024-10-27'', stub_lesson ''2024-10-28''])
     \<and> length (filter (\<lambda>l. ''2024-10-28'' < date l) [stub_lesson ''2024-10-27'', stub_lesson ''2024-10-28'']) < 60
     \<and> (\<exists>ls. LESSONS st' = Some ls \<and> length ls \<le> 60 \<and> distinct (map date ls)
          \<and> filter (\<lambda>l. date l = ''2024-10-28'') ls
              = [newLessonOf sample_persist_clock sample_result ''2024-10-28'' sample_settings])"
proof -
  let ?stored = "[stub_lesson ''2024-10-27'', stub_lesson ''2024-10-28'']"
  from persistDailyContent_returns [OF yesterdayKey_utc] obtain st' where
    run: "persistDailyContent utc_host sample_persist_clock (store_of ?stored) sample_result
      ''2024-10-28'' sample_settings = Some st'"
    by blast
  have stored: "nullish_or (LESSONS (store_of ?stored)) [] = ?stored"
    by (simp add: store_of_def nullish_or_def)
  have d: "distinct (map date ?stored)"
    by (simp add: stub_lesson_def)
  have few: "length (filter (\<lambda>l. ''2024-10-28'' < date l) ?stored) < 60"
    by simp
  from persistDailyContent_lessons [OF run] d few run show ?thesis
    unfolding stored by blast
qed

text \<open>
  The claim as the specification states it fails where sixty stored lessons are dated after
  today, as they are after the clock was set back: today's lesson sorts first and the cap
  of 60 drops it, so the day has no entry at all after the step.
\<close>

lemma later_lessons_kept:
  "updatedLessonsOf later_lessons ''2024-10-28''
     (newLessonOf sample_persist_clock sample_result ''2024-10-28'' sample_settings) = later_lessons"
  by code_simp

lemma later_lessons_distinct: "distinct (map date later_lessons)"
  by code_simp

lemma later_lessons_length: "length later_lessons = 60"
  by (simp add: later_lessons_def)

lemma later_lessons_today: "filter (\<lambda>l. date l = ''2024-10-28'') later_lessons = []"
  by code_simp

theorem persistDailyContent_evicted_counterexample:
  "length later_lessons = 60
   \<and> distinct (map date later_lessons)
   \<and> map_option LESSONS (persistDailyContent utc_host sample_persist_clock (store_of later_lessons)
        sample_result ''2024-10-28'' sample_settings) = Some (Some later_lessons)
   \<and> filter (\<lambda>l. date l = ''2024-10-28'') later_lessons = []"
proof -
  from persistDailyContent_returns [OF yesterdayKey_utc] obtain st' where
    run: "persistDailyContent utc_host sample_persist_clock (store_of later_lessons) sample_result
      ''2024-10-28'' sample_settings = Some st'"
    by blast
  from persistDailyContent_lessons_eq [OF run] have "LESSONS st' = Some later_lessons"
    by (simp add: store_of_def nullish_or_def later_lessons_kept)
  with run later_lessons_length later_lessons_distinct later_lessons_today show ?thesis by simp
qed


section \<open>The fallback orchestrator\<close>

subsection \<open>Context, backends and the offline lesson\<close>

record generation_context =
  settings :: user_settings
  recentLessons :: "lesson_record list option"
  dueFlashcards :: "flashcard list option"
  curatedChunks :: "chunk list option"

text \<open>
  A thrown value, as the \<^verbatim>\<open>catch\<close> block reads it: its \<^verbatim>\<open>message\<close>, if it has one, and
  what \<^verbatim>\<open>String(error)\<close> gives.
\<close>

datatype thrown = Thrown (message: "string option") (asString: string)

definition Error :: "string \<Rightarrow> thrown" where
  "Error msg = Thrown (Some msg) (if msg = [] then ''Error'' else ''Error: '' @ msg)"

text \<open>\<^verbatim>\<open>error?.message || String(error)\<close>.\<close>

definition errorText :: "thrown \<Rightarrow> string" where
  "errorText e = str_or (message e) (asString e)"

text \<open>
  What the orchestrator calls, over a world \<^typ>\<open>'w\<close> that every call may change: the
  read of the stored API key, the three connectors (each returns a canonical result or
  throws), the availability check of the Prompt API, and the date of the locale.
\<close>

record 'w backends =
  storedGeminiApiKey :: "'w \<Rightarrow> string option \<times> 'w"
  generateLessonWithGemini :: "string \<Rightarrow> string \<Rightarrow> generation_context \<Rightarrow> 'w \<Rightarrow> (thrown + lesson_result) \<times> 'w"
  generateLessonWithOllama :: "string \<Rightarrow> generation_context \<Rightarrow> 'w \<Rightarrow> (thrown + lesson_result) \<times> 'w"
  isPromptApiAvailable :: "'w \<Rightarrow> bool \<times> 'w"
  generateLessonWithPromptApi :: "generation_context \<Rightarrow> string \<Rightarrow> number \<Rightarrow> 'w \<Rightarrow> (thrown + lesson_result) \<times> 'w"
  toLocaleDateString :: "'w \<Rightarrow> string"

definition GEMINI_MODEL :: string where
  "GEMINI_MODEL = ''gemini-1.5-flash-latest''"

definition OLLAMA_MODEL :: string where
  "OLLAMA_MODEL = ''mistral''"

definition DEFAULT_backendPreference :: "string list" where
  "DEFAULT_backendPreference = [''gemini'', ''ollama'', ''promptApi'']"

definition newline :: string where
  "newline = [CHR 0x0A]"

text \<open>The body of the offline lesson, for a number of errors, a topic and the last lesson, if any.\<close>

definition offlineBody :: "nat \<Rightarrow> string \<Rightarrow> lesson_record option \<Rightarrow> string" where
  "offlineBody errorCount topicText priorLesson =
     newline @ ''    <h2>Offline Study Day</h2>''
     @ newline @ ''    <p>Our AI backends were unreachable ('' @ decimal errorCount
         @ '' errors). Use this self-guided prompt to stay on track.</p>''
     @ newline @ ''    <p><strong>Topic focus:</strong> '' @ topicText @ ''</p>''
     @ newline @ ''    <ul>''
     @ newline @ ''      <li>Summarise what you learned yesterday''
         @ (case priorLesson of None \<Rightarrow> [] | Some l \<Rightarrow> '' ('' @ lessonTitle l @ '')'') @ ''.</li>''
     @ newline @ ''      <li>Write down two questions you still have.</li>''
     @ newline @ ''      <li>Skim one curated source offline and capture a key quote.</li>''
     @ newline @ ''    </ul>''
     @ newline @ ''  ''"

definition questionAndAnswer :: "flashcard \<Rightarrow> candidate" where
  "questionAndAnswer c =
     \<lparr>question = question c, answer = answer c, interval = None, easeFactor = None, repetitions = None\<rparr>"

definition selfCheckCard :: "string \<Rightarrow> candidate" where
  "selfCheckCard topicText =
     \<lparr>question = ''What is one insight about '' @ topicText @ '' you can recall without assistance?'',
      answer = ''Write your answer in your notes to reinforce memory.'',
      interval = None, easeFactor = None, repetitions = None\<rparr>"

text \<open>
  \<^verbatim>\<open>buildOfflineFallbackLesson\<close>; the dash of the title is U+2014, written here by its
  three bytes in UTF-8.
\<close>

definition buildOfflineFallbackLesson :: "string \<Rightarrow> generation_context \<Rightarrow> (string \<times> string) list \<Rightarrow> lesson_result" where
  "buildOfflineFallbackLesson today ctx errors =
     (let topicText = str_or (topic (settings ctx)) ''Independent learning'';
          priorLesson = (case nullish_or (recentLessons ctx) [] of [] \<Rightarrow> None | ls \<Rightarrow> Some (last ls));
          due = map questionAndAnswer (take 5 (nullish_or (dueFlashcards ctx) []))
      in \<lparr>title = ''Offline reflection '' @ [CHR 0xE2, CHR 0x80, CHR 0x94] @ '' '' @ today,
          summary = [''Offline fallback for '' @ topicText @ ''.'',
                     ''Review a recent concept and capture notes manually.'',
                     ''Resolve connectivity or API key issues to resume AI generation.''],
          lesson = offlineBody (length errors) topicText priorLesson,
          flashcards = (if due = [] then [selfCheckCard topicText] else due),
          sources = map (\<lambda>ch. (sourceTitle ch, str_or (Some (reference ch)) ''Offline excerpt''))
                      (take 3 (nullish_or (curatedChunks ctx) [])),
          exercise = ''Spend 10 minutes journaling what you remember and identify blockers to restore connectivity.''\<rparr>)"

subsection \<open>Trying the backends in order\<close>

datatype 'r attempt = Skipped | Threw thrown | Returned 'r

definition known :: "string \<Rightarrow> bool" where
  "known backend = (backend = ''gemini'' \<or> backend = ''ollama'' \<or> backend = ''promptApi'')"

text \<open>
  The body of the \<^verbatim>\<open>try\<close> block for one backend: a backend that is none of the three
  falls through all three \<^verbatim>\<open>if\<close>s, and nothing is called.
\<close>

definition tryBackend :: "'w backends \<Rightarrow> generation_context \<Rightarrow> string \<Rightarrow> 'w \<Rightarrow> lesson_result attempt \<times> 'w" where
  "tryBackend h ctx backend w =
     (if backend = ''gemini'' then
        (let (stored, w1) = storedGeminiApiKey h w;
             apiKey = str_or stored []
         in if apiKey = [] then (Threw (Error ''Missing Gemini API key''), w1)
            else (case generateLessonWithGemini h apiKey GEMINI_MODEL ctx w1 of
                    (Inl e, w2) \<Rightarrow> (Threw e, w2)
                  | (Inr res, w2) \<Rightarrow> (Returned res, w2)))
      else if backend = ''ollama'' then
        (case generateLessonWithOllama h (str_or (ollamaModel (settings ctx)) OLLAMA_MODEL) ctx w of
           (Inl e, w1) \<Rightarrow> (Threw e, w1)
         | (Inr res, w1) \<Rightarrow> (Returned res, w1))
      else if backend = ''promptApi'' then
        (let (available, w1) = isPromptApiAvailable h w
         in if \<not> available then (Threw (Error ''Chrome Prompt API unavailable''), w1)
            else (case generateLessonWithPromptApi h ctx
                         (str_or (promptApiModel (settings ctx)) ''gemini-pro'')
                         (nullish_or (promptApiTemperature (settings ctx)) (7 / 10)) w1 of
                    (Inl e, w2) \<Rightarrow> (Threw e, w2)
                  | (Inr res, w2) \<Rightarrow> (Returned res, w2)))
      else (Skipped, w))"

text \<open>
  A run of the orchestrator: the result it returns and the world it leaves, with the
  \<^verbatim>\<open>errors\<close> array, the backends whose branch was entered, in order, and the backend
  that returned the result, if one did.
\<close>

record 'w run =
  outcome :: lesson_result
  errors :: "(string \<times> string) list"
  attempted :: "string list"
  servedBy :: "string option"
  world :: 'w

fun attemptAll ::
  "'w backends \<Rightarrow> generation_context \<Rightarrow> string list \<Rightarrow> (string \<times> string) list \<Rightarrow> string list \<Rightarrow> 'w \<Rightarrow> 'w run" where
  "attemptAll h ctx [] errs tried w =
     \<lparr>outcome = buildOfflineFallbackLesson (toLocaleDateString h w) ctx errs,
      errors = errs, attempted = tried, servedBy = None, world = w\<rparr>"
| "attemptAll h ctx (backend # rest) errs tried w =
     (case tryBackend h ctx backend w of
        (Returned res, w') \<Rightarrow>
          \<lparr>outcome = res, errors = errs, attempted = tried @ [backend], servedBy = Some backend, world = w'\<rparr>
      | (Threw e, w') \<Rightarrow> attemptAll h ctx rest (errs @ [(backend, errorText e)]) (tried @ [backend]) w'
      | (Skipped, w') \<Rightarrow> attemptAll h ctx rest errs tried w')"

text \<open>
  \<^verbatim>\<open>Array.isArray(preferences) && preferences.length ? preferences : DEFAULT_SETTINGS.backendPreference\<close>;
  \<^term>\<open>None\<close> is a value that is not an array.
\<close>

definition preferenceOrder :: "string list option \<Rightarrow> string list" where
  "preferenceOrder preferences =
     (case preferences of
        None \<Rightarrow> DEFAULT_backendPreference
      | Some [] \<Rightarrow> DEFAULT_backendPreference
      | Some (b # bs) \<Rightarrow> b # bs)"

definition executeWithFallback :: "'w backends \<Rightarrow> string list option \<Rightarrow> generation_context \<Rightarrow> 'w \<Rightarrow> 'w run" where
  "executeWithFallback h preferences ctx w = attemptAll h ctx (preferenceOrder preferences) [] [] w"

text \<open>
  What it is for every backend of a list to fail when tried in order from a world: the
  errors recorded, in order, and the world left; \<^term>\<open>None\<close> as soon as one returns.
\<close>

fun failAll :: "'w backends \<Rightarrow> generation_context \<Rightarrow> string list \<Rightarrow> 'w \<Rightarrow> ((string \<times> string) list \<times> 'w) option" where
  "failAll h ctx [] w = Some ([], w)"
| "failAll h ctx (backend # rest) w =
     (case tryBackend h ctx backend w of
        (Returned res, w') \<Rightarrow> None
      | (Threw e, w') \<Rightarrow>
          (case failAll h ctx rest w' of
             None \<Rightarrow> None
           | Some (errs, w'') \<Rightarrow> Some ((backend, errorText e) # errs, w''))
      | (Skipped, w') \<Rightarrow> failAll h ctx rest w')"

text \<open>
  Sample values: a context with nothing due; backends where no API key is stored, Ollama
  answers and the Prompt API is unavailable, over a world that logs the calls made; and the
  same with an Ollama server that answers 500.
\<close>

definition sample_context :: generation_context where
  "sample_context = \<lparr>settings = sample_settings, recentLessons = Some [stub_lesson ''2024-10-27''],
     dueFlashcards = Some [], curatedChunks = Some []\<rparr>"

definition flaky_backends :: "string list backends" where
  "flaky_backends =
     \<lparr>storedGeminiApiKey = (\<lambda>w. (None, w @ [''storage.sync.get''])),
      generateLessonWithGemini = (\<lambda>apiKey model ctx w. (Inr sample_result, w @ [''gemini''])),
      generateLessonWithOllama = (\<lambda>model ctx w. (Inr sample_result, w @ [''ollama''])),
      isPromptApiAvailable = (\<lambda>w. (False, w @ [''capabilities''])),
      generateLessonWithPromptApi = (\<lambda>ctx model temperature w. (Inr sample_result, w @ [''promptApi''])),
      toLocaleDateString = (\<lambda>w. ''10/28/2024'')\<rparr>"


subsection \<open>First success wins, in list order\<close>

lemma tryBackend_unknown: "\<not> known backend \<Longrightarrow> tryBackend h ctx backend w = (Skipped, w)"
  by (simp add: tryBackend_def known_def)

lemma tryBackend_known: "known backend \<Longrightarrow> fst (tryBackend h ctx backend w) \<noteq> Skipped"
  unfolding known_def tryBackend_def
  by (elim disjE) (simp_all add: Let_def split: prod.splits sum.splits)

lemma tryBackend_Skipped: "tryBackend h ctx backend w = (Skipped, w') \<longleftrightarrow> \<not> known backend \<and> w' = w"
proof (cases "known backend")
  case True
  from tryBackend_known [OF this, of h ctx w] True show ?thesis
    by (cases "tryBackend h ctx backend w") auto
next
  case False
  then show ?thesis by (auto simp: tryBackend_unknown)
qed

lemma tryBackend_Threw_known: "tryBackend h ctx backend w = (Threw e, w') \<Longrightarrow> known backend"
  by (cases "known backend") (simp_all add: tryBackend_unknown)

lemma tryBackend_Returned_known: "tryBackend h ctx backend w = (Returned res, w') \<Longrightarrow> known backend"
  by (cases "known backend") (simp_all add: tryBackend_unknown)

lemma failAll_backends:
  "failAll h ctx pre w = Some (errs, w1) \<Longrightarrow> map fst errs = filter known pre"
proof (induction pre arbitrary: w errs)
  case Nil
  then show ?case by simp
next
  case (Cons backend rest)
  obtain a w' where step: "tryBackend h ctx backend w = (a, w')" by (cases "tryBackend h ctx backend w")
  show ?case
  proof (cases a)
    case Skipped
    with step have "\<not> known backend" by (simp add: tryBackend_Skipped)
    with Cons step Skipped show ?thesis by simp
  next
    case (Threw e)
    with step have k: "known backend" by (auto dest: tryBackend_Threw_known)
    from Cons.prems step Threw obtain errs' where "failAll h ctx rest w' = Some (errs', w1)"
      and "errs = (backend, errorText e) # errs'"
      by (auto split: option.splits)
    with Cons.IH k show ?thesis by simp
  next
    case (Returned res)
    with Cons.prems step show ?thesis by simp
  qed
qed

lemma attemptAll_after_failures:
  "failAll h ctx pre w = Some (errs, w1) \<Longrightarrow>
   attemptAll h ctx (pre @ rest) errs0 tried0 w = attemptAll h ctx rest (errs0 @ errs) (tried0 @ filter known pre) w1"
proof (induction pre arbitrary: w errs errs0 tried0)
  case Nil
  then show ?case by simp
next
  case (Cons backend pre)
  obtain a w' where step: "tryBackend h ctx backend w = (a, w')" by (cases "tryBackend h ctx backend w")
  show ?case
  proof (cases a)
    case Skipped
    with step have "\<not> known backend" by (simp add: tryBackend_Skipped)
    with Cons step Skipped show ?thesis by simp
  next
    case (Threw e)
    with step have k: "known backend" by (auto dest: tryBackend_Threw_known)
    from Cons.prems step Threw obtain errs' where rest: "failAll h ctx pre w' = Some (errs', w1)"
      and errs: "errs = (backend, errorText e) # errs'"
      by (auto split: option.splits)
    from Cons.IH [OF rest] step Threw k errs show ?thesis by simp
  next
    case (Returned res)
    with Cons.prems step show ?thesis by simp
  qed
qed

lemma executeWithFallback_served:
  assumes "preferenceOrder prefs = pre @ backend # post"
    and "failAll h ctx pre w = Some (errs, w1)"
    and "tryBackend h ctx backend w1 = (Returned res, w2)"
  shows "executeWithFallback h prefs ctx w =
    \<lparr>outcome = res, errors = errs, attempted = filter known pre @ [backend], servedBy = Some backend, world = w2\<rparr>"
  using assms attemptAll_after_failures [OF assms(2), of "backend # post" "[]" "[]"]
  by (simp add: executeWithFallback_def)

lemma executeWithFallback_exhausted:
  assumes "failAll h ctx (preferenceOrder prefs) w = Some (errs, w1)"
  shows "executeWithFallback h prefs ctx w =
    \<lparr>outcome = buildOfflineFallbackLesson (toLocaleDateString h w1) ctx errs, errors = errs,
     attempted = filter known (preferenceOrder prefs), servedBy = None, world = w1\<rparr>"
  using attemptAll_after_failures [OF assms, of "[]" "[]" "[]"]
  by (simp add: executeWithFallback_def)

lemma failAll_None_split:
  "failAll h ctx order w = None \<Longrightarrow>
   \<exists>pre backend post errs w1 res w2. order = pre @ backend # post
      \<and> failAll h ctx pre w = Some (errs, w1) \<and> tryBackend h ctx backend w1 = (Returned res, w2)"
proof (induction order arbitrary: w)
  case Nil
  then show ?case by simp
next
  case (Cons backend rest)
  obtain a w' where step: "tryBackend h ctx backend w = (a, w')" by (cases "tryBackend h ctx backend w")
  show ?case
  proof (cases a)
    case (Returned res)
    have "backend # rest = [] @ backend # rest" by simp
    moreover have "failAll h ctx [] w = Some ([], w)" by simp
    ultimately show ?thesis using step Returned by blast
  next
    case Skipped
    with Cons.prems step have "failAll h ctx rest w' = None" by simp
    from Cons.IH [OF this] obtain pre b post errs w1 res w2 where
      "rest = pre @ b # post" "failAll h ctx pre w' = Some (errs, w1)" "tryBackend h ctx b w1 = (Returned res, w2)"
      by blast
    with step Skipped have "backend # rest = (backend # pre) @ b # post
        \<and> failAll h ctx (backend # pre) w = Some (errs, w1) \<and> tryBackend h ctx b w1 = (Returned res, w2)"
      by simp
    then show ?thesis by blast
  next
    case (Threw e)
    with Cons.prems step have "failAll h ctx rest w' = None" by (simp split: option.splits prod.splits)
    from Cons.IH [OF this] obtain pre b post errs w1 res w2 where
      "rest = pre @ b # post" "failAll h ctx pre w' = Some (errs, w1)" "tryBackend h ctx b w1 = (Returned res, w2)"
      by blast
    with step Threw have "backend # rest = (backend # pre) @ b # post
        \<and> failAll h ctx (backend # pre) w = Some ((backend, errorText e) # errs, w1)
        \<and> tryBackend h ctx b w1 = (Returned res, w2)"
      by simp
    then show ?thesis by blast
  qed
qed

lemma failAll_unknown:
  "\<forall>b \<in> set order. \<not> known b \<Longrightarrow> failAll h ctx order w = Some ([], w)"
  by (induction order) (simp_all add: tryBackend_unknown)

lemma attemptAll_skip_unknown:
  "\<not> known backend \<Longrightarrow>
   attemptAll h ctx (pre @ backend # post) errs tried w = attemptAll h ctx (pre @ post) errs tried w"
proof (induction pre arbitrary: errs tried w)
  case Nil
  then show ?case by (simp add: tryBackend_unknown)
next
  case (Cons b pre)
  obtain a w' where step: "tryBackend h ctx b w = (a, w')" by (cases "tryBackend h ctx b w")
  with Cons show ?case by (cases a) simp_all
qed

lemma executeWithFallback_known:
  "set (map fst (errors (executeWithFallback h prefs ctx w))) \<subseteq> Collect known
   \<and> set (attempted (executeWithFallback h prefs ctx w)) \<subseteq> Collect known"
proof (cases "failAll h ctx (preferenceOrder prefs) w")
  case None
  from failAll_None_split [OF this] obtain pre backend post errs w1 res w2 where
    order: "preferenceOrder prefs = pre @ backend # post"
    and fails: "failAll h ctx pre w = Some (errs, w1)"
    and returns: "tryBackend h ctx backend w1 = (Returned res, w2)"
    by blast
  from returns have "known backend" by (rule tryBackend_Returned_known)
  moreover from fails have "map fst errs = filter known pre" by (rule failAll_backends)
  ultimately show ?thesis
    by (auto simp: executeWithFallback_served [OF order fails returns])
next
  case (Some p)
  obtain errs w1 where p: "p = (errs, w1)" by (cases p)
  from Some have fails: "failAll h ctx (preferenceOrder prefs) w = Some (errs, w1)" by (simp add: p)
  then have "map fst errs = filter known (preferenceOrder prefs)" by (rule failAll_backends)
  then show ?thesis
    by (auto simp: executeWithFallback_exhausted [OF fails])
qed




text \<open>
  C3. The order tried is the configured list, or the built-in order gemini, ollama,
  promptApi when the configured value is empty or not an array. Whenever the backends
  before one fail in turn (each known one throwing, its name and message recorded in the
  order tried) and that one returns, the orchestrator returns that result at once: the
  errors are those of the backends before it, the backends whose branch was entered are
  the known ones before it and itself, and the world is the one its call left, whatever
  follows it in the list. Every run is of this kind, or is served by no backend.
\<close>

theorem executeWithFallback_first_success:
  "preferenceOrder None = [''gemini'', ''ollama'', ''promptApi'']
   \<and> preferenceOrder (Some []) = [''gemini'', ''ollama'', ''promptApi'']
   \<and> (configured \<noteq> [] \<longrightarrow> preferenceOrder (Some configured) = configured)
   \<and> (preferenceOrder prefs = pre @ backend # post
        \<and> failAll h ctx pre w = Some (errs, w1)
        \<and> tryBackend h ctx backend w1 = (Returned res, w2)
      \<longrightarrow> executeWithFallback h prefs ctx w =
            \<lparr>outcome = res, errors = errs, attempted = filter known pre @ [backend],
             servedBy = Some backend, world = w2\<rparr>)
   \<and> (failAll h ctx pre w = Some (errs, w1) \<longrightarrow> map fst errs = filter known pre)
   \<and> (servedBy (executeWithFallback h prefs ctx w) = None
        \<or> (\<exists>pre backend post errs w1 res w2.
              preferenceOrder prefs = pre @ backend # post
              \<and> failAll h ctx pre w = Some (errs, w1)
              \<and> tryBackend h ctx backend w1 = (Returned res, w2)))"
proof -
  have default: "preferenceOrder None = [''gemini'', ''ollama'', ''promptApi'']"
    "preferenceOrder (Some []) = [''gemini'', ''ollama'', ''promptApi'']"
    by (simp_all add: preferenceOrder_def DEFAULT_backendPreference_def)
  have configured: "configured \<noteq> [] \<longrightarrow> preferenceOrder (Some configured) = configured"
    by (cases configured) (simp_all add: preferenceOrder_def)
  have total: "servedBy (executeWithFallback h prefs ctx w) = None
      \<or> (\<exists>pre backend post errs w1 res w2.
            preferenceOrder prefs = pre @ backend # post
            \<and> failAll h ctx pre w = Some (errs, w1)
            \<and> tryBackend h ctx backend w1 = (Returned res, w2))"
  proof (cases "failAll h ctx (preferenceOrder prefs) w")
    case None
    from failAll_None_split [OF this] show ?thesis by blast
  next
    case (Some p)
    obtain errs w1 where "p = (errs, w1)" by (cases p)
    with Some have "failAll h ctx (preferenceOrder prefs) w = Some (errs, w1)" by simp
    from executeWithFallback_exhausted [OF this] show ?thesis by simp
  qed
  from default configured total executeWithFallback_served [of prefs pre backend post h ctx w errs w1 res w2]
    failAll_backends [of h ctx pre w errs w1]
  show ?thesis by blast
qed

lemma flaky_gemini_fails:
  "failAll flaky_backends sample_context [''gemini''] [] = Some ([(''gemini'', ''Missing Gemini API key'')], [''storage.sync.get''])"
  by (simp add: tryBackend_def flaky_backends_def str_or_def Error_def errorText_def)

lemma flaky_ollama_returns:
  "tryBackend flaky_backends sample_context ''ollama'' [''storage.sync.get'']
     = (Returned sample_result, [''storage.sync.get'', ''ollama''])"
  by (simp add: tryBackend_def flaky_backends_def)

theorem executeWithFallback_first_success_witness:
  "preferenceOrder (Some [''ollama'', ''gemini'']) = [''ollama'', ''gemini'']
   \<and> preferenceOrder None = [''gemini''] @ ''ollama'' # [''promptApi'']
   \<and> failAll flaky_backends sample_context [''gemini''] []
       = Some ([(''gemini'', ''Missing Gemini API key'')], [''storage.sync.get''])
   \<and> tryBackend flaky_backends sample_context ''ollama'' [''storage.sync.get'']
       = (Returned sample_result, [''storage.sync.get'', ''ollama''])
   \<and> executeWithFallback flaky_backends None sample_context []
       = \<lparr>outcome = sample_result, errors = [(''gemini'', ''Missing Gemini API key'')],
          attempted = [''gemini'', ''ollama''], servedBy = Some ''ollama'',
          world = [''storage.sync.get'', ''ollama'']\<rparr>"
proof -
  have order: "preferenceOrder None = [''gemini''] @ ''ollama'' # [''promptApi'']"
    by (simp add: preferenceOrder_def DEFAULT_backendPreference_def)
  from executeWithFallback_first_success [of "[''ollama'', ''gemini'']" None "[''gemini'']" "''ollama''" "[''promptApi'']"
      flaky_backends sample_context "[]" "[(''gemini'', ''Missing Gemini API key'')]"
      "[''storage.sync.get'']" sample_result "[''storage.sync.get'', ''ollama'']"]
    order flaky_gemini_fails flaky_ollama_returns
  show ?thesis by (simp add: known_def)
qed




text \<open>
  C10. A backend that is none of gemini, ollama and promptApi is skipped: the run with it
  in the list is the run without it (given the list without it is not empty, so that the
  default order does not step in). A non-empty list of unknown backends only gives the
  offline lesson with no error recorded, no backend tried and the world untouched, and the
  lesson body states 0 errors. In every run the errors recorded and the backends tried are
  known ones.
\<close>

theorem executeWithFallback_unknown_skipped:
  "(\<not> known backend \<and> pre @ post \<noteq> []
      \<longrightarrow> executeWithFallback h (Some (pre @ backend # post)) ctx w
          = executeWithFallback h (Some (pre @ post)) ctx w)
   \<and> (configured \<noteq> [] \<and> (\<forall>b \<in> set configured. \<not> known b)
      \<longrightarrow> executeWithFallback h (Some configured) ctx w
          = \<lparr>outcome = buildOfflineFallbackLesson (toLocaleDateString h w) ctx [], errors = [],
             attempted = [], servedBy = None, world = w\<rparr>
        \<and> lesson (buildOfflineFallbackLesson (toLocaleDateString h w) ctx [])
          = offlineBody 0 (str_or (topic (settings ctx)) ''Independent learning'')
              (case nullish_or (recentLessons ctx) [] of [] \<Rightarrow> None | ls \<Rightarrow> Some (last ls)))
   \<and> set (map fst (errors (executeWithFallback h prefs ctx w))) \<subseteq> Collect known
   \<and> set (attempted (executeWithFallback h prefs ctx w)) \<subseteq> Collect known
   \<and> (known backend \<longleftrightarrow> backend \<in> {''gemini'', ''ollama'', ''promptApi''})"
proof -
  have skip: "executeWithFallback h (Some (pre @ backend # post)) ctx w
      = executeWithFallback h (Some (pre @ post)) ctx w"
    if "\<not> known backend" and "pre @ post \<noteq> []"
  proof -
    from that(2) have "preferenceOrder (Some (pre @ post)) = pre @ post"
      by (cases "pre @ post") (simp_all add: preferenceOrder_def)
    moreover have "preferenceOrder (Some (pre @ backend # post)) = pre @ backend # post"
      by (cases "pre @ backend # post") (simp_all add: preferenceOrder_def)
    ultimately show ?thesis
      using attemptAll_skip_unknown [OF that(1)] by (simp add: executeWithFallback_def)
  qed
  have only: "executeWithFallback h (Some configured) ctx w
      = \<lparr>outcome = buildOfflineFallbackLesson (toLocaleDateString h w) ctx [], errors = [],
         attempted = [], servedBy = None, world = w\<rparr>"
    if "configured \<noteq> []" and unknown: "\<forall>b \<in> set configured. \<not> known b"
  proof -
    from that(1) have order: "preferenceOrder (Some configured) = configured"
      by (cases configured) (simp_all add: preferenceOrder_def)
    from unknown have "failAll h ctx (preferenceOrder (Some configured)) w = Some ([], w)"
      unfolding order by (rule failAll_unknown)
    from executeWithFallback_exhausted [OF this] unknown show ?thesis
      by (simp add: order filter_empty_conv)
  qed
  have body: "lesson (buildOfflineFallbackLesson today ctx [])
      = offlineBody 0 (str_or (topic (settings ctx)) ''Independent learning'')
          (case nullish_or (recentLessons ctx) [] of [] \<Rightarrow> None | ls \<Rightarrow> Some (last ls))" for today
    by (simp add: buildOfflineFallbackLesson_def Let_def)
  have names: "known backend \<longleftrightarrow> backend \<in> {''gemini'', ''ollama'', ''promptApi''}"
    by (auto simp: known_def)
  from skip only body names executeWithFallback_known [of h prefs ctx w] show ?thesis by blast
qed

theorem executeWithFallback_unknown_skipped_witness:
  "\<not> known ''claude'' \<and> [] @ [''ollama''] \<noteq> []
   \<and> executeWithFallback flaky_backends (Some ([] @ ''claude'' # [''ollama''])) sample_context []
       = executeWithFallback flaky_backends (Some ([] @ [''ollama''])) sample_context []
   \<and> executeWithFallback flaky_backends (Some [''claude'', ''gpt'']) sample_context []
       = \<lparr>outcome = buildOfflineFallbackLesson ''10/28/2024'' sample_context [], errors = [],
          attempted = [], servedBy = None, world = []\<rparr>
   \<and> lesson (buildOfflineFallbackLesson ''10/28/2024'' sample_context [])
       = offlineBody 0 ''Learning how to learn'' (Some (stub_lesson ''2024-10-27''))"
proof -
  have unknown: "\<not> known ''claude''" "\<not> known ''gpt''"
    by (simp_all add: known_def)
  have today: "toLocaleDateString flaky_backends [] = ''10/28/2024''"
    by (simp add: flaky_backends_def)
  have about: "str_or (topic (settings sample_context)) ''Independent learning'' = ''Learning how to learn''"
    by (simp add: sample_context_def sample_settings_def str_or_def)
  have prior: "nullish_or (recentLessons sample_context) [] = [stub_lesson ''2024-10-27'']"
    by (simp add: sample_context_def nullish_or_def)
  from executeWithFallback_unknown_skipped [of "''claude''" "[]" "[''ollama'']" flaky_backends sample_context "[]"
      "[''claude'', ''gpt'']"] unknown today
  show ?thesis
    by (simp add: about prior)
qed


section \<open>The connectors: normalising the model output\<close>

subsection \<open>JavaScript values\<close>

text \<open>
  What \<^verbatim>\<open>JSON.parse\<close> returns is not typed, and the connectors pass much of it on as it
  is: their normalisation is modelled on JavaScript values. An object is the list of its
  own properties.
\<close>

datatype jsval =
  JUndefined | JNull | JBool bool | JNum number | JStr string | JArr "jsval list"
  | JObj "(string \<times> jsval) list"

fun truthy :: "jsval \<Rightarrow> bool" where
  "truthy JUndefined = False"
| "truthy JNull = False"
| "truthy (JBool b) = b"
| "truthy (JNum n) = (n \<noteq> 0)"
| "truthy (JStr s) = (s \<noteq> [])"
| "truthy (JArr xs) = True"
| "truthy (JObj ps) = True"

text \<open>\<^verbatim>\<open>a || b\<close>.\<close>

definition js_or :: "jsval \<Rightarrow> jsval \<Rightarrow> jsval" where
  "js_or a b = (if truthy a then a else b)"

text \<open>
  \<^verbatim>\<open>parsed.name\<close> for the six names the connectors read: a \<^verbatim>\<open>TypeError\<close> on \<^verbatim>\<open>null\<close> and
  \<^verbatim>\<open>undefined\<close>, the property of an object, and \<^verbatim>\<open>undefined\<close> on anything else (no
  array, string, number or boolean has a property of one of these names).
\<close>

fun getProp :: "jsval \<Rightarrow> string \<Rightarrow> thrown + jsval" where
  "getProp JUndefined name =
     Inl (Thrown (Some (''Cannot read properties of undefined (reading '' @ [CHR 0x27] @ name @ [CHR 0x27] @ '')''))
            ''TypeError'')"
| "getProp JNull name =
     Inl (Thrown (Some (''Cannot read properties of null (reading '' @ [CHR 0x27] @ name @ [CHR 0x27] @ '')''))
            ''TypeError'')"
| "getProp (JObj ps) name = Inr (case map_of ps name of None \<Rightarrow> JUndefined | Some v \<Rightarrow> v)"
| "getProp v name = Inr JUndefined"

text \<open>\<^verbatim>\<open>Array.isArray(v) ? v : other\<close>, as the list of the elements.\<close>

definition elementsOr :: "jsval \<Rightarrow> jsval list \<Rightarrow> jsval list" where
  "elementsOr v other = (case v of JArr xs \<Rightarrow> xs | _ \<Rightarrow> other)"

text \<open>
  What the normalisation asks of its host: \<^verbatim>\<open>JSON.parse\<close> (the message of the
  \<^verbatim>\<open>SyntaxError\<close> when it throws) and the conversion of a value to a string in a template
  literal.
\<close>

record js_host =
  JSON_parse :: "string \<Rightarrow> string + jsval"
  toStringJs :: "jsval \<Rightarrow> string"

subsection \<open>Cleaning and the heuristic parser\<close>

definition fence :: string where
  "fence = [CHR 0x60, CHR 0x60, CHR 0x60]"

text \<open>
  \<^verbatim>\<open>replace(/^```json\n?|```$/g, '')\<close>: an opening fence with its \<^verbatim>\<open>json\<close> tag and one
  line feed at the very start, and a closing fence at the very end, are removed.
\<close>

definition stripFence :: "string \<Rightarrow> string" where
  "stripFence s =
     (let opening = fence @ ''json'';
          s1 = (if take (length opening) s = opening
                then (let r = drop (length opening) s in if take 1 r = newline then drop 1 r else r)
                else s)
      in if length fence \<le> length s1 \<and> drop (length s1 - length fence) s1 = fence
         then take (length s1 - length fence) s1 else s1)"

definition cleaned :: "string \<Rightarrow> string" where
  "cleaned rawText = stripFence (trim rawText)"

text \<open>\<^verbatim>\<open>text.split('\n')\<close>: at least one line, the empty one for the empty text.\<close>

fun splitLines :: "string \<Rightarrow> string list" where
  "splitLines [] = [[]]"
| "splitLines (ch # rest) =
     (if ch = CHR 0x0A then [] # splitLines rest
      else (case splitLines rest of [] \<Rightarrow> [[ch]] | line # others \<Rightarrow> (ch # line) # others))"

text \<open>\<^verbatim>\<open>rest.join(' ')\<close>.\<close>

fun joinWith :: "string \<Rightarrow> string list \<Rightarrow> string" where
  "joinWith sep [] = []"
| "joinWith sep [x] = x"
| "joinWith sep (x # y # others) = x @ sep @ joinWith sep (y # others)"

definition placeholderCard :: "string option \<Rightarrow> jsval" where
  "placeholderCard topicOpt =
     (let topicText = str_or topicOpt ''Learning Science''
      in JObj [(''question'', JStr (''What is one actionable insight about '' @ topicText @ ''?'')),
               (''answer'', JStr (''Summarise one takeaway about '' @ topicText @ '' from today'' @ [CHR 0x27]
                                  @ ''s reading.''))])"

text \<open>\<^verbatim>\<open>generateFallbackFlashcards(context)\<close>.\<close>

definition generateFallbackFlashcards :: "string option \<Rightarrow> jsval list" where
  "generateFallbackFlashcards topicOpt = [placeholderCard topicOpt]"

definition generateFallbackTitle :: "user_settings \<Rightarrow> string" where
  "generateFallbackTitle cfg =
     (if mode cfg = ''curated'' then ''Curated Knowledge Review''
      else ''Learning Snapshot: '' @ str_or (topic cfg) ''General Curiosity'')"

text \<open>The title the heuristic parser takes from the first line.\<close>

definition heuristicTitle :: "string \<Rightarrow> string" where
  "heuristicTitle firstLine =
     str_or (Some (trim (filter (\<lambda>ch. ch \<notin> set ''#*-'') firstLine))) ''LearnPulse Daily Lesson''"

text \<open>The summary it takes from the lines after the first: the first three, trimmed, the empty ones dropped.\<close>

definition heuristicBullets :: "string list \<Rightarrow> string list" where
  "heuristicBullets rest = filter (\<lambda>line. line \<noteq> []) (map trim (take 3 rest))"

definition fallbackParser :: "string \<Rightarrow> jsval" where
  "fallbackParser t =
     (case splitLines t of
        [] \<Rightarrow> JUndefined
      | firstLine # rest \<Rightarrow>
          JObj [(''title'', JStr (heuristicTitle firstLine)),
                (''summary'', JArr (map JStr (heuristicBullets rest))),
                (''lesson'', JStr (''<p>'' @ joinWith '' '' rest @ ''</p>'')),
                (''flashcards'', JArr (generateFallbackFlashcards None)),
                (''sources'', JArr [])])"

subsection \<open>The two normalisations\<close>

definition curatedReferences :: "chunk list \<Rightarrow> jsval list" where
  "curatedReferences chunks =
     map (\<lambda>ch. JObj [(''title'', JStr (sourceTitle ch)),
                      (''reference'', JStr (str_or (Some (reference ch)) (str_or (url ch) ''User provided source'')))])
       (take 3 chunks)"

text \<open>
  The rest of \<^verbatim>\<open>normaliseModelOutput\<close>, once \<^verbatim>\<open>parsed\<close> is there: it throws only where
  \<^verbatim>\<open>parsed\<close> is \<^verbatim>\<open>null\<close>.
\<close>

definition canonicalOf :: "js_host \<Rightarrow> generation_context \<Rightarrow> jsval \<Rightarrow> thrown + jsval" where
  "canonicalOf host ctx parsed =
     (case (getProp parsed ''summary'', getProp parsed ''flashcards'', getProp parsed ''sources'',
            getProp parsed ''title'', getProp parsed ''lesson'', getProp parsed ''exercise'') of
        (Inr pSummary, Inr pFlashcards, Inr pSources, Inr pTitle, Inr pLesson, Inr pExercise) \<Rightarrow>
          (let summaryList = elementsOr pSummary (filter truthy [pSummary]);
               cards = elementsOr pFlashcards [];
               given = elementsOr pSources [];
               chunks = nullish_or (curatedChunks ctx) [];
               sourceList = (if mode (settings ctx) = ''curated'' \<and> chunks \<noteq> [] \<and> given = []
                             then curatedReferences chunks else given)
           in Inr (JObj
                [(''title'', js_or pTitle (JStr (generateFallbackTitle (settings ctx)))),
                 (''summary'', JArr (if summaryList \<noteq> [] then summaryList
                                     else [JStr ''Daily concept update from LearnPulse.''])),
                 (''lesson'', js_or pLesson
                    (JStr (''<p>'' @ toStringJs host (js_or pSummary (JStr ''Lesson content unavailable.'')) @ ''</p>''))),
                 (''flashcards'', JArr (if cards \<noteq> [] then cards
                                        else generateFallbackFlashcards (topic (settings ctx)))),
                 (''sources'', JArr sourceList),
                 (''exercise'', js_or pExercise
                    (JStr (''Reflect on today'' @ [CHR 0x27] @ ''s concept and write down one question you still have.'')))]))
      | (Inl e, _) \<Rightarrow> Inl e
      | (_, Inl e, _) \<Rightarrow> Inl e
      | (_, _, Inl e, _) \<Rightarrow> Inl e
      | (_, _, _, Inl e, _) \<Rightarrow> Inl e
      | (_, _, _, _, Inl e, _) \<Rightarrow> Inl e
      | (_, _, _, _, _, Inl e) \<Rightarrow> Inl e)"

text \<open>The normalisation of the Gemini connector, which the Prompt API connector shares.\<close>

definition normaliseModelOutput :: "js_host \<Rightarrow> string \<Rightarrow> generation_context \<Rightarrow> thrown + jsval" where
  "normaliseModelOutput host rawText ctx =
     canonicalOf host ctx
       (case JSON_parse host (cleaned rawText) of
          Inl syntaxError \<Rightarrow> fallbackParser (cleaned rawText)
        | Inr parsed \<Rightarrow> parsed)"

definition chunkValue :: "chunk \<Rightarrow> jsval" where
  "chunkValue ch =
     JObj [(''id'', JStr (chunkId ch)), (''text'', JStr (chunkText ch)),
           (''sourceTitle'', JStr (sourceTitle ch)), (''reference'', JStr (reference ch)),
           (''url'', (case url ch of None \<Rightarrow> JNull | Some u \<Rightarrow> JStr u))]"

text \<open>The normalisation of the Ollama connector.\<close>

definition normaliseOutput :: "js_host \<Rightarrow> string \<Rightarrow> generation_context \<Rightarrow> thrown + jsval" where
  "normaliseOutput host t ctx =
     (case JSON_parse host (cleaned t) of
        Inl syntaxError \<Rightarrow> Inl (Error (''Ollama response was not valid JSON: '' @ syntaxError))
      | Inr parsed \<Rightarrow>
          (case (getProp parsed ''title'', getProp parsed ''summary'', getProp parsed ''lesson'',
                 getProp parsed ''flashcards'', getProp parsed ''sources'', getProp parsed ''exercise'') of
             (Inr pTitle, Inr pSummary, Inr pLesson, Inr pFlashcards, Inr pSources, Inr pExercise) \<Rightarrow>
               Inr (JObj
                 [(''title'', js_or pTitle (JStr ''LearnPulse Lesson'')),
                  (''summary'', JArr (elementsOr pSummary (filter truthy [pSummary]))),
                  (''lesson'', js_or pLesson (JStr ''<p>No lesson content produced.</p>'')),
                  (''flashcards'', JArr (elementsOr pFlashcards [])),
                  (''sources'', js_or pSources
                     (case curatedChunks ctx of
                        None \<Rightarrow> JArr []
                      | Some chunks \<Rightarrow> JArr (map chunkValue (take 3 chunks)))),
                  (''exercise'', js_or pExercise (JStr ''Reflect on what you learned today.''))])
           | (Inl e, _) \<Rightarrow> Inl e
           | (_, Inl e, _) \<Rightarrow> Inl e
           | (_, _, Inl e, _) \<Rightarrow> Inl e
           | (_, _, _, Inl e, _) \<Rightarrow> Inl e
           | (_, _, _, _, Inl e, _) \<Rightarrow> Inl e
           | (_, _, _, _, _, Inl e) \<Rightarrow> Inl e))"

text \<open>Sample values: a response that is prose, not JSON, and a host whose \<^verbatim>\<open>JSON.parse\<close> says so.\<close>

definition prose_response :: string where
  "prose_response = ''## Spaced repetition'' @ newline @ ''  Review at growing intervals.  '' @ newline
     @ newline @ ''- Recall beats rereading.'' @ newline @ ''Fourth line.''"

definition prose_host :: js_host where
  "prose_host = \<lparr>JSON_parse = (\<lambda>t. Inl ''Unexpected token # in JSON at position 0''),
     toStringJs = (\<lambda>v. case v of JStr s \<Rightarrow> s | _ \<Rightarrow> [])\<rparr>"

subsection \<open>A response that is not JSON\<close>

lemma splitLines_not_Nil: "splitLines t \<noteq> []"
  by (induction t) (simp_all split: list.splits)

lemma heuristicTitle_not_empty: "heuristicTitle firstLine \<noteq> []"
  by (simp add: heuristicTitle_def str_or_def)

lemma length_heuristicBullets: "length (heuristicBullets rest) \<le> 3"
proof -
  have "length (heuristicBullets rest) \<le> length (map trim (take 3 rest))"
    unfolding heuristicBullets_def by (rule length_filter_le)
  then show ?thesis by simp
qed

lemma canonicalOf_heuristic:
  "canonicalOf host ctx
     (JObj [(''title'', JStr t), (''summary'', JArr (map JStr bullets)), (''lesson'', JStr (''<p>'' @ inner @ ''</p>'')),
            (''flashcards'', JArr (generateFallbackFlashcards None)), (''sources'', JArr [])])
   = Inr (JObj
       [(''title'', js_or (JStr t) (JStr (generateFallbackTitle (settings ctx)))),
        (''summary'', JArr (if bullets \<noteq> [] then map JStr bullets else [JStr ''Daily concept update from LearnPulse.''])),
        (''lesson'', JStr (''<p>'' @ inner @ ''</p>'')),
        (''flashcards'', JArr (generateFallbackFlashcards None)),
        (''sources'', JArr (if mode (settings ctx) = ''curated'' \<and> nullish_or (curatedChunks ctx) [] \<noteq> []
                             then curatedReferences (nullish_or (curatedChunks ctx) []) else [])),
        (''exercise'', JStr (''Reflect on today'' @ [CHR 0x27] @ ''s concept and write down one question you still have.''))])"
  by (simp add: canonicalOf_def elementsOr_def js_or_def generateFallbackFlashcards_def Let_def)

text \<open>
  C5, as the code has it. In the Gemini connector's normalisation, which the Prompt API
  connector shares, a response that fails to parse as JSON never raises: the heuristic
  parser takes over and a canonical result is returned. Its title is the first line without
  the characters #, * and -, trimmed, or a fixed title when nothing is left; its summary is
  the first three of the following lines, trimmed, the empty ones dropped, or one fixed
  bullet when none is left; its lesson is the following lines joined; it has the one
  placeholder flashcard.
\<close>

theorem normaliseModelOutput_parse_failure:
  assumes "JSON_parse host (cleaned rawText) = Inl syntaxError"
  shows "\<exists>firstLine rest result.
      splitLines (cleaned rawText) = firstLine # rest
    \<and> normaliseModelOutput host rawText ctx = Inr result
    \<and> getProp result ''title'' = Inr (JStr (heuristicTitle firstLine))
    \<and> heuristicTitle firstLine \<noteq> []
    \<and> getProp result ''summary'' =
         Inr (JArr (if heuristicBullets rest \<noteq> [] then map JStr (heuristicBullets rest)
                    else [JStr ''Daily concept update from LearnPulse.'']))
    \<and> length (heuristicBullets rest) \<le> 3
    \<and> getProp result ''lesson'' = Inr (JStr (''<p>'' @ joinWith '' '' rest @ ''</p>''))
    \<and> getProp result ''flashcards'' = Inr (JArr [placeholderCard None])"
proof -
  obtain firstLine rest where lines: "splitLines (cleaned rawText) = firstLine # rest"
    using splitLines_not_Nil [of "cleaned rawText"] by (cases "splitLines (cleaned rawText)") auto
  define result where "result = JObj
       [(''title'', js_or (JStr (heuristicTitle firstLine)) (JStr (generateFallbackTitle (settings ctx)))),
        (''summary'', JArr (if heuristicBullets rest \<noteq> [] then map JStr (heuristicBullets rest)
                            else [JStr ''Daily concept update from LearnPulse.''])),
        (''lesson'', JStr (''<p>'' @ joinWith '' '' rest @ ''</p>'')),
        (''flashcards'', JArr (generateFallbackFlashcards None)),
        (''sources'', JArr (if mode (settings ctx) = ''curated'' \<and> nullish_or (curatedChunks ctx) [] \<noteq> []
                             then curatedReferences (nullish_or (curatedChunks ctx) []) else [])),
        (''exercise'', JStr (''Reflect on today'' @ [CHR 0x27] @ ''s concept and write down one question you still have.''))]"
  have parsed: "fallbackParser (cleaned rawText) =
      JObj [(''title'', JStr (heuristicTitle firstLine)),
            (''summary'', JArr (map JStr (heuristicBullets rest))),
            (''lesson'', JStr (''<p>'' @ joinWith '' '' rest @ ''</p>'')),
            (''flashcards'', JArr (generateFallbackFlashcards None)), (''sources'', JArr [])]"
    by (simp add: fallbackParser_def lines)
  have "normaliseModelOutput host rawText ctx = canonicalOf host ctx (fallbackParser (cleaned rawText))"
    by (simp only: normaliseModelOutput_def assms sum.case)
  also have "\<dots> = Inr result"
    unfolding parsed result_def by (rule canonicalOf_heuristic)
  finally have run: "normaliseModelOutput host rawText ctx = Inr result" .
  have title: "getProp result ''title'' = Inr (JStr (heuristicTitle firstLine))"
    by (simp add: result_def js_or_def heuristicTitle_not_empty)
  have others: "getProp result ''summary'' =
         Inr (JArr (if heuristicBullets rest \<noteq> [] then map JStr (heuristicBullets rest)
                    else [JStr ''Daily concept update from LearnPulse.'']))"
    "getProp result ''lesson'' = Inr (JStr (''<p>'' @ joinWith '' '' rest @ ''</p>''))"
    "getProp result ''flashcards'' = Inr (JArr [placeholderCard None])"
    by (simp_all add: result_def generateFallbackFlashcards_def)
  from lines run title others heuristicTitle_not_empty [of firstLine] length_heuristicBullets [of rest]
  show ?thesis by blast
qed

lemma prose_rejected:
  "JSON_parse prose_host (cleaned prose_response) = Inl ''Unexpected token # in JSON at position 0''"
  by (simp add: prose_host_def)

lemma prose_lines:
  "splitLines (cleaned prose_response)
     = [''## Spaced repetition'', ''  Review at growing intervals.  '', [], ''- Recall beats rereading.'', ''Fourth line.'']"
  by (simp add: cleaned_def prose_response_def newline_def trim_def isSpace_def stripFence_def fence_def)

lemma prose_title: "heuristicTitle ''## Spaced repetition'' = ''Spaced repetition''"
  by (simp add: heuristicTitle_def str_or_def trim_def isSpace_def)

lemma prose_bullets:
  "heuristicBullets [''  Review at growing intervals.  '', [], ''- Recall beats rereading.'', ''Fourth line.'']
     = [''Review at growing intervals.'', ''- Recall beats rereading.'']"
  by (simp add: heuristicBullets_def trim_def isSpace_def)

theorem normaliseModelOutput_parse_failure_witness:
  "JSON_parse prose_host (cleaned prose_response) = Inl ''Unexpected token # in JSON at position 0''
   \<and> (\<exists>result. normaliseModelOutput prose_host prose_response sample_context = Inr result
        \<and> getProp result ''title'' = Inr (JStr ''Spaced repetition'')
        \<and> getProp result ''summary''
            = Inr (JArr [JStr ''Review at growing intervals.'', JStr ''- Recall beats rereading.'']))"
proof -
  from normaliseModelOutput_parse_failure [OF prose_rejected, of sample_context]
  obtain firstLine rest result where
    lines: "splitLines (cleaned prose_response) = firstLine # rest"
    and run: "normaliseModelOutput prose_host prose_response sample_context = Inr result"
    and title: "getProp result ''title'' = Inr (JStr (heuristicTitle firstLine))"
    and bullets: "getProp result ''summary'' =
         Inr (JArr (if heuristicBullets rest \<noteq> [] then map JStr (heuristicBullets rest)
                    else [JStr ''Daily concept update from LearnPulse.'']))"
    by blast
  from lines have first: "firstLine = ''## Spaced repetition''"
    and rest: "rest = [''  Review at growing intervals.  '', [], ''- Recall beats rereading.'', ''Fourth line.'']"
    by (simp_all add: prose_lines)
  from title have "getProp result ''title'' = Inr (JStr ''Spaced repetition'')"
    by (simp only: first prose_title)
  moreover from bullets have "getProp result ''summary''
      = Inr (JArr [JStr ''Review at growing intervals.'', JStr ''- Recall beats rereading.''])"
    by (simp only: rest prose_bullets) simp
  ultimately show ?thesis using run prose_rejected by blast
qed

text \<open>
  The claim as the specification states it, for every connector, fails on the Ollama
  connector: its normalisation catches the \<^verbatim>\<open>SyntaxError\<close> and throws an error of its
  own, which the orchestrator records as the failure of that backend.
\<close>

lemma normaliseOutput_parse_failure:
  assumes "JSON_parse host (cleaned t) = Inl syntaxError"
  shows "normaliseOutput host t ctx = Inl (Error (''Ollama response was not valid JSON: '' @ syntaxError))"
  by (simp add: normaliseOutput_def assms)

theorem normaliseOutput_throws_counterexample:
  "prose_response \<noteq> []
   \<and> JSON_parse prose_host (cleaned prose_response) = Inl ''Unexpected token # in JSON at position 0''
   \<and> normaliseOutput prose_host prose_response sample_context
       = Inl (Error ''Ollama response was not valid JSON: Unexpected token # in JSON at position 0'')"
  using normaliseOutput_parse_failure [OF prose_rejected, of sample_context] prose_rejected
  by (simp add: prose_response_def)


end
